theory Spec2Isabelle
  imports Main "HOL-Library.Word"
begin

unbundle bit_operations_syntax

section \<open>Bytes, hexadecimal text and errors\<close>

text \<open>
  The ledger engine of \<^verbatim>\<open>torba/baseledger.py\<close> works on Python \<^verbatim>\<open>bytes\<close>, on
  text and on unbounded integers.  Bytes are lists of 8-bit words, text is \<^typ>\<open>string\<close>
  and integers are \<^typ>\<open>int\<close>.  Every exception the code can raise is a value of the
  type \<open>error\<close>; a computation that may raise returns \<open>error + 'a\<close> with the
  exception on the left.
\<close>

type_synonym byte = "8 word"
type_synonym bytes = "byte list"

datatype error =
    BinasciiError
  | ValueError
  | TypeError
  | KeyError string
  | IndexError
  | AttributeError
  | AssertionError string
  | Base58Error
  | NetworkError
  | DatabaseError
  | TransactionError
  | SelectionError
  | LockHeld

text \<open>
  \<^verbatim>\<open>binascii.unhexlify\<close>: an even number of hexadecimal digits of either case, two
  per byte; anything else raises \<^verbatim>\<open>binascii.Error\<close>.
\<close>

definition hex_digit_value :: "char \<Rightarrow> nat option" where
  "hex_digit_value c =
     (let n = (of_char c :: nat) in
      if 48 \<le> n \<and> n \<le> 57 then Some (n - 48)
      else if 97 \<le> n \<and> n \<le> 102 then Some (n - 87)
      else if 65 \<le> n \<and> n \<le> 70 then Some (n - 55)
      else None)"

fun unhexlify :: "string \<Rightarrow> error + bytes" where
  "unhexlify [] = Inr []"
| "unhexlify [c] = Inl BinasciiError"
| "unhexlify (a # b # cs) =
     (case (hex_digit_value a, hex_digit_value b) of
        (Some h, Some l) \<Rightarrow>
          (case unhexlify cs of
             Inl e \<Rightarrow> Inl e
           | Inr bs \<Rightarrow> Inr (of_nat (16 * h + l) # bs))
      | _ \<Rightarrow> Inl BinasciiError)"

text \<open>\<^verbatim>\<open>binascii.hexlify\<close>: two lower-case digits per byte.\<close>

definition hex_digit :: "nat \<Rightarrow> char" where
  "hex_digit n = ''0123456789abcdef'' ! (n mod 16)"

definition hexlify :: "bytes \<Rightarrow> string" where
  "hexlify bs = concat (map (\<lambda>b. [hex_digit (unat b div 16), hex_digit (unat b mod 16)]) bs)"

section \<open>The Merkle verifier\<close>

text \<open>
  \<^verbatim>\<open>BaseLedger.get_root_of_merkle_tree(branches, branch_positions, working_branch)\<close>.
  The loop runs over \<^verbatim>\<open>enumerate(branches)\<close>; the function below carries the index
  \<open>i\<close> and the current \<open>working_branch\<close>.  \<^verbatim>\<open>double_sha256\<close> comes from
  \<^verbatim>\<open>torba.hash\<close> and is a parameter.  \<^verbatim>\<open>bool((branch_positions >> i) & 1)\<close> is
  \<open>drop_bit i branch_positions AND 1 \<noteq> 0\<close>: Python shifts a negative integer
  arithmetically, as \<open>drop_bit\<close> on \<^typ>\<open>int\<close> does.
\<close>

fun merkle_loop :: "(bytes \<Rightarrow> bytes) \<Rightarrow> nat \<Rightarrow> string list \<Rightarrow> int \<Rightarrow> bytes \<Rightarrow> error + bytes" where
  "merkle_loop double_sha256 i [] branch_positions working_branch = Inr working_branch"
| "merkle_loop double_sha256 i (branch # branches) branch_positions working_branch =
     (case unhexlify branch of
        Inl e \<Rightarrow> Inl e
      | Inr raw \<Rightarrow>
          (let other_branch = rev raw;
               other_branch_on_left = (drop_bit i branch_positions AND 1 \<noteq> 0);
               combined = (if other_branch_on_left then other_branch @ working_branch
                           else working_branch @ other_branch)
           in merkle_loop double_sha256 (Suc i) branches branch_positions
                (double_sha256 combined)))"

definition get_root_of_merkle_tree ::
  "(bytes \<Rightarrow> bytes) \<Rightarrow> string list \<Rightarrow> int \<Rightarrow> bytes \<Rightarrow> error + string" where
  "get_root_of_merkle_tree double_sha256 branches branch_positions working_branch =
     (case merkle_loop double_sha256 0 branches branch_positions working_branch of
        Inl e \<Rightarrow> Inl e
      | Inr w \<Rightarrow> Inr (hexlify (rev w)))"

text \<open>
  The specification's wording of the same computation, for comparison with the code:
  every branch is decoded and byte-reversed; the siblings are folded in order, sibling
  number \<open>i\<close> going to the left of the working hash iff bit \<open>i\<close> of the bitmask is set;
  the result is the final working hash, byte-reversed and hex-encoded.
\<close>

fun unhexlify_all :: "string list \<Rightarrow> error + bytes list" where
  "unhexlify_all [] = Inr []"
| "unhexlify_all (b # bs) =
     (case unhexlify b of
        Inl e \<Rightarrow> Inl e
      | Inr raw \<Rightarrow> (case unhexlify_all bs of Inl e \<Rightarrow> Inl e | Inr raws \<Rightarrow> Inr (raw # raws)))"

definition spec_merkle_step :: "(bytes \<Rightarrow> bytes) \<Rightarrow> int \<Rightarrow> bytes \<Rightarrow> nat \<times> bytes \<Rightarrow> bytes" where
  "spec_merkle_step double_sha256 positions working =
     (\<lambda>(i, sibling). double_sha256 (if bit positions i then sibling @ working else working @ sibling))"

definition spec_merkle_root :: "(bytes \<Rightarrow> bytes) \<Rightarrow> bytes list \<Rightarrow> int \<Rightarrow> bytes \<Rightarrow> string" where
  "spec_merkle_root double_sha256 decoded positions start =
     hexlify (rev (foldl (spec_merkle_step double_sha256 positions) start
                     (enumerate 0 (map rev decoded))))"

section \<open>The address codec\<close>

text \<open>
  \<^verbatim>\<open>BaseLedger.hash160_to_address\<close> and \<^verbatim>\<open>BaseLedger.address_to_hash160\<close>.
  \<^verbatim>\<open>Base58.encode\<close>, \<^verbatim>\<open>Base58.decode\<close> and \<^verbatim>\<open>double_sha256\<close> belong to
  \<^verbatim>\<open>torba.hash\<close> and are parameters, as is the class attribute
  \<^verbatim>\<open>pubkey_address_prefix\<close>.  The slice \<^verbatim>\<open>[0:4]\<close> is \<open>take 4\<close> and the slice
  \<^verbatim>\<open>[1:21]\<close> is \<open>take 20 \<circ> drop 1\<close>; Python slices never raise.
\<close>

definition hash160_to_address ::
  "(bytes \<Rightarrow> string) \<Rightarrow> (bytes \<Rightarrow> bytes) \<Rightarrow> bytes \<Rightarrow> bytes \<Rightarrow> string" where
  "hash160_to_address b58encode double_sha256 pubkey_address_prefix h160 =
     (let raw_address = pubkey_address_prefix @ h160
      in b58encode (raw_address @ take 4 (double_sha256 raw_address)))"

definition address_to_hash160 :: "(string \<Rightarrow> error + bytes) \<Rightarrow> string \<Rightarrow> error + bytes" where
  "address_to_hash160 b58decode address =
     (case b58decode address of
        Inl e \<Rightarrow> Inl e
      | Inr decoded \<Rightarrow> Inr (take 20 (drop 1 decoded)))"

text \<open>
  Modelled from the spec: the \<^verbatim>\<open>Base58\<close> class of \<^verbatim>\<open>torba.hash\<close> is not among the
  sources.  The specification names the codec Base58Check; this is Base58 over the Bitcoin
  alphabet, with one \<^verbatim>\<open>1\<close> per leading zero byte.  It instantiates the two codec
  parameters at a concrete address; no theorem about the ledger depends on it otherwise.
\<close>

definition base58_chars :: string where
  "base58_chars = ''123456789ABCDEFGHJKLMNPQRSTUVWXYZabcdefghijkmnopqrstuvwxyz''"

definition bytes_to_int :: "bytes \<Rightarrow> nat" where
  "bytes_to_int bs = foldl (\<lambda>v b. v * 256 + unat b) 0 bs"

function int_to_bytes :: "nat \<Rightarrow> bytes" where
  "int_to_bytes v = (if v = 0 then [] else int_to_bytes (v div 256) @ [of_nat (v mod 256)])"
  by pat_completeness auto
termination
  by (relation "measure id") auto

function base58_digits :: "nat \<Rightarrow> string" where
  "base58_digits v = (if v = 0 then [] else base58_chars ! (v mod 58) # base58_digits (v div 58))"
  by pat_completeness auto
termination
  by (relation "measure id") auto

definition base58_encode :: "bytes \<Rightarrow> string" where
  "base58_encode be_bytes =
     rev (base58_digits (bytes_to_int be_bytes)
          @ replicate (length (takeWhile (\<lambda>b. b = 0) be_bytes)) (CHR ''1''))"

fun index_of :: "string \<Rightarrow> char \<Rightarrow> nat option" where
  "index_of [] c = None"
| "index_of (x # xs) c = (if x = c then Some 0 else map_option Suc (index_of xs c))"

fun base58_value :: "nat \<Rightarrow> string \<Rightarrow> error + nat" where
  "base58_value v [] = Inr v"
| "base58_value v (c # cs) =
     (case index_of base58_chars c of
        None \<Rightarrow> Inl Base58Error
      | Some d \<Rightarrow> base58_value (v * 58 + d) cs)"

definition base58_decode :: "string \<Rightarrow> error + bytes" where
  "base58_decode txt =
     (if txt = [] then Inl Base58Error
      else case base58_value 0 txt of
             Inl e \<Rightarrow> Inl e
           | Inr v \<Rightarrow>
               Inr (replicate (length (takeWhile (\<lambda>c. c = CHR ''1'') txt)) 0 @ int_to_bytes v))"

section \<open>The ledger registry\<close>

text \<open>
  \<^verbatim>\<open>LedgerRegistry\<close> is the metaclass of every ledger class.  A class statement
  reaches \<^verbatim>\<open>__new__(mcs, name, bases, attrs)\<close>; of the new class the code reads its
  name, whether it has bases, and the attributes \<^verbatim>\<open>symbol\<close> and \<^verbatim>\<open>network_name\<close>
  (as attribute lookup resolves them; \<open>None\<close> when the lookup raises
  \<^verbatim>\<open>AttributeError\<close>, as on a class that only inherits the annotations of
  \<^verbatim>\<open>BaseLedger\<close>).  The dictionary \<^verbatim>\<open>ledgers\<close> is a map from ids to classes.
  \<^verbatim>\<open>str.lower\<close> is modelled on ASCII text.
\<close>

record ledger_class =
  cls_name :: string
  cls_bases :: "string list"
  cls_symbol :: "string option"
  cls_network_name :: "string option"

type_synonym registry = "string \<rightharpoonup> ledger_class"

definition lower_char :: "char \<Rightarrow> char" where
  "lower_char c =
     (case index_of ''ABCDEFGHIJKLMNOPQRSTUVWXYZ'' c of
        None \<Rightarrow> c
      | Some i \<Rightarrow> ''abcdefghijklmnopqrstuvwxyz'' ! i)"

definition lower :: "string \<Rightarrow> string" where
  "lower s = map lower_char s"

definition get_id :: "ledger_class \<Rightarrow> error + string" where
  "get_id cls =
     (case cls_symbol cls of
        None \<Rightarrow> Inl AttributeError
      | Some symbol \<Rightarrow>
          (case cls_network_name cls of
             None \<Rightarrow> Inl AttributeError
           | Some network_name \<Rightarrow> Inr (lower symbol @ ''_'' @ lower network_name)))"

definition already_registered :: "string \<Rightarrow> string" where
  "already_registered ledger_id =
     ''Ledger with id '' @ [CHR 0x22] @ ledger_id @ [CHR 0x22] @ '' already registered.''"

definition is_base_ledger :: "ledger_class \<Rightarrow> bool" where
  "is_base_ledger cls = (cls_name cls = ''BaseLedger'' \<and> cls_bases cls = [])"

text \<open>
  \<^verbatim>\<open>LedgerRegistry.__new__\<close>: the result is the registry after the class statement, or
  the exception that ends it.
\<close>

definition registry_new :: "registry \<Rightarrow> ledger_class \<Rightarrow> error + registry" where
  "registry_new ledgers cls =
     (if \<not> (cls_name cls = ''BaseLedger'' \<and> cls_bases cls = []) then
        (case get_id cls of
           Inl e \<Rightarrow> Inl e
         | Inr ledger_id \<Rightarrow>
             if ledgers ledger_id \<noteq> None then Inl (AssertionError (already_registered ledger_id))
             else Inr (ledgers(ledger_id \<mapsto> cls)))
      else Inr ledgers)"

definition get_ledger_class :: "registry \<Rightarrow> string \<Rightarrow> error + ledger_class" where
  "get_ledger_class ledgers ledger_id =
     (case ledgers ledger_id of None \<Rightarrow> Inl (KeyError ledger_id) | Some cls \<Rightarrow> Inr cls)"

text \<open>
  A run of the program executes class statements one after another.  A statement that
  raises leaves the registry as it was; whether the program goes on after it (the list
  continues) or stops there (the list ends) is left open.
\<close>

fun define_classes :: "registry \<Rightarrow> ledger_class list \<Rightarrow> registry" where
  "define_classes ledgers [] = ledgers"
| "define_classes ledgers (cls # rest) =
     (case registry_new ledgers cls of
        Inl e \<Rightarrow> define_classes ledgers rest
      | Inr ledgers' \<Rightarrow> define_classes ledgers' rest)"

section \<open>The ledger: collaborators and state\<close>

subsection \<open>Values passed around\<close>

text \<open>
  A transaction object, as far as the ledger reads it: \<^verbatim>\<open>tx.id\<close>, \<^verbatim>\<open>tx.hash\<close> and
  \<^verbatim>\<open>tx.raw\<close>.  A header is read through \<^verbatim>\<open>header['merkle_root']\<close> only.  An
  unspent output is named by its transaction id and position.  \<^verbatim>\<open>is_verified\<close> is an
  integer, Python's \<^verbatim>\<open>False\<close> being \<open>0\<close>.
\<close>

record transaction =
  tx_id :: string
  tx_hash :: bytes
  tx_raw :: bytes

record header =
  merkle_root :: string

type_synonym txo = "string \<times> nat"

record estimator =
  est_txo :: txo
  est_effective_amount :: int

datatype transaction_event =
  TransactionEvent (ev_address: string) (ev_tx: transaction) (ev_height: int) (ev_is_verified: int)

subsection \<open>The database adapter\<close>

text \<open>
  Modelled from the spec: \<^verbatim>\<open>torba.basedatabase\<close> is not among the sources.  Of the
  adapter's interface the ledger uses \<^verbatim>\<open>get_address\<close>, \<^verbatim>\<open>get_transaction\<close>,
  \<^verbatim>\<open>save_transaction_io\<close> and \<^verbatim>\<open>reserve_outputs\<close>.  The store keeps, per address, the
  \<^verbatim>\<open>history\<close> column (\<open>None\<close> for a null column), per transaction id the row
  \<open>(raw, height, is_verified)\<close>, and the reserved outputs.
\<close>

record database =
  db_address :: "string \<rightharpoonup> string option"
  db_tx :: "string \<rightharpoonup> bytes \<times> int \<times> int"
  db_reserved :: "txo list"

text \<open>
  Modelled from the spec: \<^verbatim>\<open>get_transaction(txid)\<close> returns
  \<open>(raw, height, is_verified)\<close>, or a triple that starts with \<^verbatim>\<open>None\<close> and has a false
  \<^verbatim>\<open>is_verified\<close> when there is no row.
\<close>

definition db_get_transaction :: "database \<Rightarrow> string \<Rightarrow> bytes option \<times> int option \<times> int" where
  "db_get_transaction d txid =
     (case db_tx d txid of
        None \<Rightarrow> (None, None, 0)
      | Some (raw, height, is_verified) \<Rightarrow> (Some raw, Some height, is_verified))"

text \<open>The \<^verbatim>\<open>is_verified\<close> that \<^verbatim>\<open>db.get_transaction\<close> reads for a transaction id.\<close>

definition stored_is_verified :: "database \<Rightarrow> string \<Rightarrow> int" where
  "stored_is_verified d txid = (case db_tx d txid of None \<Rightarrow> 0 | Some (raw, height, v) \<Rightarrow> v)"

text \<open>
  Modelled from the spec: \<^verbatim>\<open>save_transaction_io(mode, tx, height, is_verified, address,
  hash160, history_string)\<close>.  Mode \<^verbatim>\<open>insert\<close> writes the transaction row, mode
  \<^verbatim>\<open>update\<close> rewrites the height and \<^verbatim>\<open>is_verified\<close> of an existing row, mode
  \<^verbatim>\<open>None\<close> leaves the row alone; the history column of the address is rewritten in
  every mode.
\<close>

definition db_save_transaction_io ::
  "database \<Rightarrow> string option \<Rightarrow> transaction \<Rightarrow> int \<Rightarrow> int \<Rightarrow> string \<Rightarrow> bytes \<Rightarrow> string \<Rightarrow> database" where
  "db_save_transaction_io d save_tx tx height is_verified address h160 history =
     (let txs =
        (if save_tx = Some ''insert'' then (db_tx d)(tx_id tx \<mapsto> (tx_raw tx, height, is_verified))
         else if save_tx = Some ''update'' then
           (case db_tx d (tx_id tx) of
              None \<Rightarrow> db_tx d
            | Some (raw, old_height, old_verified) \<Rightarrow>
                (db_tx d)(tx_id tx \<mapsto> (raw, height, is_verified)))
         else db_tx d);
          addresses =
        (case db_address d address of
           None \<Rightarrow> db_address d
         | Some old \<Rightarrow> (db_address d)(address \<mapsto> Some history))
      in d\<lparr>db_tx := txs, db_address := addresses\<rparr>)"

subsection \<open>Parameters\<close>

text \<open>
  The network adapter, the transaction and header decoders, the hash, the Base58 decoder,
  the accounts and the coin selector are collaborators outside \<^verbatim>\<open>baseledger.py\<close>.  They
  are parameters: each is a function that returns a value or raises.  A history entry
  \<^verbatim>\<open>{'tx_hash': t, 'height': h}\<close> is the pair \<open>(t, h)\<close>; a Merkle answer
  \<^verbatim>\<open>{'merkle': m, 'pos': p}\<close> is \<open>(m, p)\<close>; a header answer
  \<^verbatim>\<open>{'count': c, 'hex': x}\<close> is \<open>(c, x)\<close>.
\<close>

record network =
  net_get_history :: "string \<Rightarrow> error + (string \<times> int) list"
  net_get_transaction :: "string \<Rightarrow> error + string"
  net_get_merkle :: "string \<Rightarrow> int \<Rightarrow> error + string list \<times> int"
  net_get_headers :: "nat \<Rightarrow> nat \<Rightarrow> error + int \<times> string"

record env =
  network :: network
  transaction_class :: "bytes \<Rightarrow> error + transaction"
  hash_double_sha256 :: "bytes \<Rightarrow> bytes"
  base58_decode_address :: "string \<Rightarrow> error + bytes"
  deserialize_headers :: "nat \<Rightarrow> bytes \<Rightarrow> error + header list"
  get_unspent_outputs :: "database \<Rightarrow> string \<Rightarrow> error + txo list"
  get_estimator :: "txo \<Rightarrow> estimator"
  coin_select :: "estimator list \<Rightarrow> int \<Rightarrow> int \<Rightarrow> error + estimator list"
  pay_pubkey_hash_size :: int
  fee_per_byte :: int
  reserve_outputs_failure :: "database \<Rightarrow> txo list \<Rightarrow> error option"

subsection \<open>The state of a ledger\<close>

text \<open>
  The ledger object: its database, its headers, the three locks, and what it has
  published on \<^verbatim>\<open>on_transaction\<close> and \<^verbatim>\<open>on_header\<close>, oldest first.  The field
  \<open>calls\<close> is a log of the calls made to collaborators, in order; a header append is
  logged with the state of the header lock at that moment.  A \<^verbatim>\<open>DeferredLock\<close> is its
  \<^verbatim>\<open>locked\<close> flag.  The model runs one coroutine: acquiring a lock that is already held
  makes the coroutine wait, and the run stops there with the pseudo-error \<open>LockHeld\<close>.
\<close>

datatype call =
    GetMerkle string int
  | SaveTransactionIO "string option" string int int string bytes string
  | HeadersConnect nat bool
  | ReserveOutputs "txo list"

record ledger =
  db :: database
  headers :: "header list"
  transaction_processing_locks :: "string \<rightharpoonup> bool"
  utxo_reservation_lock :: bool
  header_processing_lock :: bool
  on_transaction :: "transaction_event list"
  on_header :: "int list"
  calls :: "call list"

section \<open>The history of an address\<close>

text \<open>
  The history column is the text \<^verbatim>\<open>''.join('{}:{}:'.format(tx_id, tx_height) ...)\<close>.
  Formatting an integer gives its decimal digits, with a minus sign when negative.
\<close>

definition digit_char :: "nat \<Rightarrow> char" where
  "digit_char n = ''0123456789'' ! (n mod 10)"

function str_nat :: "nat \<Rightarrow> string" where
  "str_nat n = (if n < 10 then [digit_char n] else str_nat (n div 10) @ [digit_char (n mod 10)])"
  by pat_completeness auto
termination
  by (relation "measure id") auto

definition str_int :: "int \<Rightarrow> string" where
  "str_int i = (if i < 0 then CHR ''-'' # str_nat (nat (- i)) else str_nat (nat i))"

fun history_string :: "(string \<times> int) list \<Rightarrow> string" where
  "history_string [] = []"
| "history_string ((txid, tx_height) # rest) =
     txid @ '':'' @ str_int tx_height @ '':'' @ history_string rest"

text \<open>
  \<^verbatim>\<open>str.split(':')\<close>, and \<^verbatim>\<open>int\<close> of a text: an optional sign and decimal digits.
  (Python's \<^verbatim>\<open>int\<close> also accepts surrounding white space and underscores between
  digits; for those texts the model raises \<^verbatim>\<open>ValueError\<close>.)
\<close>

fun split_on :: "char \<Rightarrow> string \<Rightarrow> string list" where
  "split_on sep [] = [[]]"
| "split_on sep (c # cs) =
     (if c = sep then [] # split_on sep cs
      else (case split_on sep cs of
              [] \<Rightarrow> [[c]]
            | part # parts \<Rightarrow> (c # part) # parts))"

fun parse_digits :: "nat \<Rightarrow> string \<Rightarrow> nat option" where
  "parse_digits acc [] = Some acc"
| "parse_digits acc (c # cs) =
     (case index_of ''0123456789'' c of
        None \<Rightarrow> None
      | Some d \<Rightarrow> parse_digits (acc * 10 + d) cs)"

definition parse_unsigned :: "string \<Rightarrow> nat option" where
  "parse_unsigned s = (if s = [] then None else parse_digits 0 s)"

definition py_int :: "string \<Rightarrow> error + int" where
  "py_int s =
     (case s of
        [] \<Rightarrow> Inl ValueError
      | c # cs \<Rightarrow>
          if c = CHR ''-'' then
            (case parse_unsigned cs of None \<Rightarrow> Inl ValueError | Some n \<Rightarrow> Inr (- int n))
          else if c = CHR ''+'' then
            (case parse_unsigned cs of None \<Rightarrow> Inl ValueError | Some n \<Rightarrow> Inr (int n))
          else
            (case parse_unsigned s of None \<Rightarrow> Inl ValueError | Some n \<Rightarrow> Inr (int n)))"

text \<open>
  \<^verbatim>\<open>list(zip(parts[0::2], map(int, parts[1::2])))\<close>: the parts are taken two at a time,
  a last part without a partner is dropped, and the first height that is not an integer
  raises.
\<close>

fun zip_pairs :: "string list \<Rightarrow> error + (string \<times> int) list" where
  "zip_pairs (txid # height # rest) =
     (case py_int height of
        Inl e \<Rightarrow> Inl e
      | Inr h \<Rightarrow> (case zip_pairs rest of Inl e \<Rightarrow> Inl e | Inr pairs \<Rightarrow> Inr ((txid, h) # pairs)))"
| "zip_pairs parts = Inr []"

text \<open>
  \<^verbatim>\<open>BaseLedger.get_local_history\<close>.  Without a row for the address,
  \<^verbatim>\<open>address_details\<close> is \<^verbatim>\<open>None\<close> and subscripting it raises \<^verbatim>\<open>TypeError\<close>.
\<close>

definition get_local_history :: "database \<Rightarrow> string \<Rightarrow> error + (string \<times> int) list" where
  "get_local_history d address =
     (case db_address d address of
        None \<Rightarrow> Inl TypeError
      | Some column \<Rightarrow>
          (let history = (case column of None \<Rightarrow> [] | Some text \<Rightarrow> text);
               parts = butlast (split_on (CHR '':'') history)
           in zip_pairs parts))"

section \<open>Transaction verification\<close>

text \<open>
  Modelled from the spec: the Headers adapter (\<^verbatim>\<open>torba.baseheader\<close>) is not among the
  sources.  Header heights are dense, so a store of \<open>n\<close> headers answers the heights
  \<open>0\<close> to \<open>n - 1\<close>; any other height has no entry.
\<close>

definition header_at :: "header list \<Rightarrow> int \<Rightarrow> error + header" where
  "header_at hs height =
     (if 0 \<le> height \<and> height < int (length hs) then Inr (hs ! nat height)
      else Inl IndexError)"

text \<open>
  \<^verbatim>\<open>BaseLedger.is_valid_transaction\<close>.  The first line,
  \<^verbatim>\<open>height <= len(self.headers) or defer.returnValue(False)\<close>, returns \<^verbatim>\<open>False\<close> when
  the comparison fails and goes on otherwise.
\<close>

definition is_valid_transaction ::
  "env \<Rightarrow> ledger \<Rightarrow> transaction \<Rightarrow> int \<Rightarrow> (error + bool) \<times> ledger" where
  "is_valid_transaction e st tx height =
     (if \<not> height \<le> int (length (headers st)) then (Inr False, st)
      else
        (let st1 = st\<lparr>calls := calls st @ [GetMerkle (tx_id tx) height]\<rparr> in
         case net_get_merkle (network e) (tx_id tx) height of
           Inl err \<Rightarrow> (Inl err, st1)
         | Inr (merkle, pos) \<Rightarrow>
             (case get_root_of_merkle_tree (hash_double_sha256 e) merkle pos (tx_hash tx) of
                Inl err \<Rightarrow> (Inl err, st1)
              | Inr root \<Rightarrow>
                  (case header_at (headers st1) height of
                     Inl err \<Rightarrow> (Inl err, st1)
                   | Inr header \<Rightarrow> (Inr (root = merkle_root header), st1)))))"

section \<open>The history synchronizer\<close>

text \<open>
  The body of the \<^verbatim>\<open>try\<close> block of \<^verbatim>\<open>BaseLedger.update_history\<close>, for one remote
  entry that is not skipped.  It runs with the lock of \<open>hex_id\<close> held.
\<close>

definition load_transaction ::
  "env \<Rightarrow> ledger \<Rightarrow> string \<Rightarrow> error + (transaction \<times> string option \<times> int)" where
  "load_transaction e st hex_id =
     (case db_get_transaction (db st) hex_id of
        (None, height, is_verified) \<Rightarrow>
          (case net_get_transaction (network e) hex_id of
             Inl err \<Rightarrow> Inl err
           | Inr raw_hex \<Rightarrow>
               (case unhexlify raw_hex of
                  Inl err \<Rightarrow> Inl err
                | Inr raw \<Rightarrow>
                    (case transaction_class e raw of
                       Inl err \<Rightarrow> Inl err
                     | Inr tx \<Rightarrow> Inr (tx, Some ''insert'', is_verified))))
      | (Some raw, height, is_verified) \<Rightarrow>
          (case transaction_class e raw of
             Inl err \<Rightarrow> Inl err
           | Inr tx \<Rightarrow> Inr (tx, None, is_verified)))"

definition save_and_publish ::
  "env \<Rightarrow> ledger \<Rightarrow> string \<Rightarrow> string option \<Rightarrow> transaction \<Rightarrow> int \<Rightarrow> int \<Rightarrow>
   (string \<times> int) list \<Rightarrow> (error + unit) \<times> ledger" where
  "save_and_publish e st address save_tx tx remote_height is_verified synced_history =
     (case address_to_hash160 (base58_decode_address e) address of
        Inl err \<Rightarrow> (Inl err, st)
      | Inr h160 \<Rightarrow>
          (let history = history_string synced_history in
           (Inr (),
            st\<lparr>db := db_save_transaction_io (db st) save_tx tx remote_height is_verified
                       address h160 history,
               calls := calls st @ [SaveTransactionIO save_tx (tx_id tx) remote_height
                                      is_verified address h160 history],
               on_transaction := on_transaction st
                                   @ [TransactionEvent address tx remote_height is_verified]\<rparr>)))"

definition sync_locked ::
  "env \<Rightarrow> ledger \<Rightarrow> string \<Rightarrow> string \<Rightarrow> int \<Rightarrow> (string \<times> int) list \<Rightarrow> (error + unit) \<times> ledger" where
  "sync_locked e st address hex_id remote_height synced_history =
     (case load_transaction e st hex_id of
        Inl err \<Rightarrow> (Inl err, st)
      | Inr (tx, save_tx, is_verified) \<Rightarrow>
          if remote_height > 0 \<and> is_verified = 0 then
            (case is_valid_transaction e st tx remote_height of
               (Inl err, st1) \<Rightarrow> (Inl err, st1)
             | (Inr valid, st1) \<Rightarrow>
                 save_and_publish e st1 address
                   (if save_tx = None then Some ''update'' else save_tx) tx remote_height
                   (if valid then 1 else 0) synced_history)
          else save_and_publish e st address save_tx tx remote_height is_verified synced_history)"

text \<open>
  One remote entry that is not skipped: take the lock of \<open>hex_id\<close> out of the table
  (\<^verbatim>\<open>setdefault\<close>) and acquire it, run the \<^verbatim>\<open>try\<close> block, and in the \<^verbatim>\<open>finally\<close>
  clause release the lock and delete it from the table, no coroutine waiting for it.
\<close>

definition sync_transaction ::
  "env \<Rightarrow> ledger \<Rightarrow> string \<Rightarrow> string \<Rightarrow> int \<Rightarrow> (string \<times> int) list \<Rightarrow> (error + unit) \<times> ledger" where
  "sync_transaction e st address hex_id remote_height synced_history =
     (if transaction_processing_locks st hex_id = Some True then (Inl LockHeld, st)
      else
        (let st1 = st\<lparr>transaction_processing_locks :=
                        (transaction_processing_locks st)(hex_id \<mapsto> True)\<rparr>;
             (result, st2) = sync_locked e st1 address hex_id remote_height synced_history
         in (result, st2\<lparr>transaction_processing_locks :=
                          (transaction_processing_locks st2)(hex_id := None)\<rparr>)))"

text \<open>
  The loop of \<^verbatim>\<open>update_history\<close> over \<^verbatim>\<open>enumerate(remote_history)\<close>: \<open>i\<close> is the
  index, \<open>synced_history\<close> the list built so far, and \<open>local_history\<close> is the list
  read before the loop.  An exception ends the loop.
\<close>

fun sync_entries ::
  "env \<Rightarrow> string \<Rightarrow> (string \<times> int) list \<Rightarrow> nat \<Rightarrow> (string \<times> int) list \<Rightarrow>
   (string \<times> int) list \<Rightarrow> ledger \<Rightarrow> (error + unit) \<times> ledger" where
  "sync_entries e address local_history i synced_history [] st = (Inr (), st)"
| "sync_entries e address local_history i synced_history ((hex_id, remote_height) # rest) st =
     (let synced = synced_history @ [(hex_id, remote_height)] in
      if i < length local_history \<and> local_history ! i = (hex_id, remote_height) then
        sync_entries e address local_history (Suc i) synced rest st
      else
        (case sync_transaction e st address hex_id remote_height synced of
           (Inl err, st1) \<Rightarrow> (Inl err, st1)
         | (Inr u, st1) \<Rightarrow> sync_entries e address local_history (Suc i) synced rest st1))"

definition update_history :: "env \<Rightarrow> string \<Rightarrow> ledger \<Rightarrow> (error + unit) \<times> ledger" where
  "update_history e address st =
     (case net_get_history (network e) address of
        Inl err \<Rightarrow> (Inl err, st)
      | Inr remote_history \<Rightarrow>
          (case get_local_history (db st) address of
             Inl err \<Rightarrow> (Inl err, st)
           | Inr local_history \<Rightarrow> sync_entries e address local_history 0 [] remote_history st))"

section \<open>The header sync loop\<close>

text \<open>
  Modelled from the spec: the Headers adapter is not among the sources.
  \<^verbatim>\<open>connect(start_height, bytes)\<close> decodes the bytes (a parameter, which may raise)
  and stores the headers from \<open>start_height\<close> on; \<^verbatim>\<open>headers.height\<close> is the number the
  specification also writes for \<^verbatim>\<open>len(self.headers)\<close>.
\<close>

definition headers_connect :: "env \<Rightarrow> header list \<Rightarrow> nat \<Rightarrow> bytes \<Rightarrow> error + header list" where
  "headers_connect e hs start data =
     (case deserialize_headers e start data of
        Inl err \<Rightarrow> Inl err
      | Inr new \<Rightarrow> Inr (take start hs @ new))"

definition headers_height :: "header list \<Rightarrow> int" where
  "headers_height hs = int (length hs)"

text \<open>
  The two lines that append: \<^verbatim>\<open>yield self.headers.connect(start, unhexlify(hex))\<close> and
  \<^verbatim>\<open>self._on_header_controller.add(self.headers.height)\<close>.  The call is logged with the
  state of \<^verbatim>\<open>_header_processing_lock\<close> at that moment.
\<close>

definition connect_and_publish :: "env \<Rightarrow> ledger \<Rightarrow> nat \<Rightarrow> string \<Rightarrow> (error + unit) \<times> ledger" where
  "connect_and_publish e st start hex =
     (case unhexlify hex of
        Inl err \<Rightarrow> (Inl err, st)
      | Inr data \<Rightarrow>
          (let st1 = st\<lparr>calls := calls st @ [HeadersConnect start (header_processing_lock st)]\<rparr> in
           case headers_connect e (headers st1) start data of
             Inl err \<Rightarrow> (Inl err, st1)
           | Inr hs \<Rightarrow>
               (Inr (), st1\<lparr>headers := hs, on_header := on_header st1 @ [headers_height hs]\<rparr>)))"

text \<open>
  \<^verbatim>\<open>BaseLedger.update_headers\<close>.  The \<^verbatim>\<open>while True\<close> loop ends when the network
  answers with a count of zero or less, or raises; it need not end.  The function takes
  fuel, one unit per round, and returns \<open>None\<close> with the state reached when the fuel
  is used up and the loop is still running.  The function acquires no lock.
\<close>

fun update_headers :: "env \<Rightarrow> nat \<Rightarrow> ledger \<Rightarrow> (error + unit) option \<times> ledger" where
  "update_headers e 0 st = (None, st)"
| "update_headers e (Suc fuel) st =
     (let height_sought = length (headers st) in
      case net_get_headers (network e) height_sought 2000 of
        Inl err \<Rightarrow> (Some (Inl err), st)
      | Inr (count, hex) \<Rightarrow>
          if count \<le> 0 then (Some (Inr ()), st)
          else
            (case connect_and_publish e st height_sought hex of
               (Inl err, st1) \<Rightarrow> (Some (Inl err), st1)
             | (Inr u, st1) \<Rightarrow> update_headers e fuel st1))"

text \<open>
  \<^verbatim>\<open>BaseLedger.process_header(response)\<close>, \<open>response\<close> being a list of
  \<^verbatim>\<open>{'height': h, 'hex': x}\<close>.  The body of the \<^verbatim>\<open>try\<close> block first; then the function,
  which acquires the header lock before the block and releases it in the \<^verbatim>\<open>finally\<close>
  clause.  When the fuel of the nested catch-up is used up the block has not ended and
  the lock is still held.
\<close>

definition process_header_locked ::
  "env \<Rightarrow> nat \<Rightarrow> (int \<times> string) list \<Rightarrow> ledger \<Rightarrow> (error + unit) option \<times> ledger" where
  "process_header_locked e fuel response st =
     (case response of
        [] \<Rightarrow> (Some (Inl IndexError), st)
      | (height, hex) # others \<Rightarrow>
          if height = int (length (headers st)) then
            (case connect_and_publish e st (length (headers st)) hex of
               (r, st1) \<Rightarrow> (Some r, st1))
          else if height > int (length (headers st)) then update_headers e fuel st
          else (Some (Inr ()), st))"

definition process_header ::
  "env \<Rightarrow> nat \<Rightarrow> (int \<times> string) list \<Rightarrow> ledger \<Rightarrow> (error + unit) option \<times> ledger" where
  "process_header e fuel response st =
     (if header_processing_lock st then (Some (Inl LockHeld), st)
      else
        (case process_header_locked e fuel response (st\<lparr>header_processing_lock := True\<rparr>) of
           (None, st1) \<Rightarrow> (None, st1)
         | (Some r, st1) \<Rightarrow> (Some r, st1\<lparr>header_processing_lock := False\<rparr>)))"

text \<open>
  The part of \<^verbatim>\<open>BaseLedger.start\<close> that touches the headers: after the first connection
  it calls \<^verbatim>\<open>update_headers\<close> directly.
\<close>

definition start_headers :: "env \<Rightarrow> nat \<Rightarrow> ledger \<Rightarrow> (error + unit) option \<times> ledger" where
  "start_headers e fuel st = update_headers e fuel st"

definition header_appends :: "call list \<Rightarrow> bool list" where
  "header_appends cs = concat (map (\<lambda>c. case c of HeadersConnect start locked \<Rightarrow> [locked] | _ \<Rightarrow> []) cs)"

section \<open>The reservation gate\<close>

text \<open>
  \<^verbatim>\<open>BaseLedger.get_effective_amount_estimators\<close>: the estimators of the unspent outputs
  of every funding account, in order.  Reading an account's outputs may raise.
\<close>

fun get_effective_amount_estimators ::
  "env \<Rightarrow> database \<Rightarrow> string list \<Rightarrow> error + estimator list" where
  "get_effective_amount_estimators e d [] = Inr []"
| "get_effective_amount_estimators e d (account # accounts) =
     (case get_unspent_outputs e d account of
        Inl err \<Rightarrow> Inl err
      | Inr utxos \<Rightarrow>
          (case get_effective_amount_estimators e d accounts of
             Inl err \<Rightarrow> Inl err
           | Inr estimators \<Rightarrow> Inr (map (get_estimator e) utxos @ estimators)))"

definition get_input_output_fee :: "env \<Rightarrow> int \<Rightarrow> int" where
  "get_input_output_fee e io_size = fee_per_byte e * io_size"

text \<open>
  Modelled from the spec: \<^verbatim>\<open>db.reserve_outputs(txos)\<close> marks the outputs as reserved, or
  fails and reserves nothing; when it fails is a parameter.
\<close>

definition db_reserve_outputs :: "env \<Rightarrow> database \<Rightarrow> txo list \<Rightarrow> error + database" where
  "db_reserve_outputs e d txos =
     (case reserve_outputs_failure e d txos of
        Some err \<Rightarrow> Inl err
      | None \<Rightarrow> Inr (d\<lparr>db_reserved := db_reserved d @ txos\<rparr>))"

text \<open>
  The \<^verbatim>\<open>try\<close> block of \<^verbatim>\<open>BaseLedger.get_spendable_utxos\<close>, and the function: the
  reservation lock is acquired before the block and released in the \<^verbatim>\<open>finally\<close> clause;
  the \<^verbatim>\<open>except\<close> clause logs and raises again.
\<close>

definition select_and_reserve ::
  "env \<Rightarrow> int \<Rightarrow> string list \<Rightarrow> ledger \<Rightarrow> (error + estimator list) \<times> ledger" where
  "select_and_reserve e amount funding_accounts st =
     (case get_effective_amount_estimators e (db st) funding_accounts of
        Inl err \<Rightarrow> (Inl err, st)
      | Inr txos \<Rightarrow>
          (case coin_select e txos amount (get_input_output_fee e (pay_pubkey_hash_size e)) of
             Inl err \<Rightarrow> (Inl err, st)
           | Inr spendables \<Rightarrow>
               if spendables \<noteq> [] then
                 (let reserved = map est_txo spendables;
                      st1 = st\<lparr>calls := calls st @ [ReserveOutputs reserved]\<rparr>
                  in case db_reserve_outputs e (db st1) reserved of
                       Inl err \<Rightarrow> (Inl err, st1)
                     | Inr d \<Rightarrow> (Inr spendables, st1\<lparr>db := d\<rparr>))
               else (Inr spendables, st)))"

definition get_spendable_utxos ::
  "env \<Rightarrow> int \<Rightarrow> string list \<Rightarrow> ledger \<Rightarrow> (error + estimator list) \<times> ledger" where
  "get_spendable_utxos e amount funding_accounts st =
     (if utxo_reservation_lock st then (Inl LockHeld, st)
      else
        (case select_and_reserve e amount funding_accounts (st\<lparr>utxo_reservation_lock := True\<rparr>) of
           (result, st1) \<Rightarrow> (result, st1\<lparr>utxo_reservation_lock := False\<rparr>)))"

text \<open>What a run has logged: the history texts passed to the database, in order.\<close>

definition saved_histories :: "call list \<Rightarrow> string list" where
  "saved_histories cs =
     concat (map (\<lambda>c. case c of SaveTransactionIO m t h v a h160 history \<Rightarrow> [history] | _ \<Rightarrow> []) cs)"

text \<open>
  The indices of the remote entries that the loop of \<^verbatim>\<open>update_history\<close> does not skip:
  those at which the local history has no equal entry.
\<close>

definition unmatched :: "(string \<times> int) list \<Rightarrow> (string \<times> int) list \<Rightarrow> nat list" where
  "unmatched local_history remote_history =
     filter (\<lambda>i. \<not> (i < length local_history \<and> local_history ! i = remote_history ! i))
       [0..<length remote_history]"

section \<open>Sample inputs\<close>

subsection \<open>Sample values\<close>

text \<open>
  Concrete inputs at which the theorems below are instantiated: a stand-in for the hash
  parameter, a 20-byte hash160 with its raw address under the prefix \<open>0x55\<close>, and three
  class statements, two of which share the id \<^verbatim>\<open>lbc_mainnet\<close>.
\<close>

definition toy_hash :: "bytes \<Rightarrow> bytes" where
  "toy_hash bs = take 32 (rev bs @ replicate 32 7)"

definition sample_h160 :: bytes where
  "sample_h160 = [1,2,3,4,5,6,7,8,9,10,11,12,13,14,15,16,17,18,19,20]"

definition sample_raw_address :: bytes where
  "sample_raw_address =
     [0x55,1,2,3,4,5,6,7,8,9,10,11,12,13,14,15,16,17,18,19,20,20,19,18,17]"

definition sample_address :: string where
  "sample_address = ''bCpbnCkrjoJ6EHXtLx9eASHEbFYyes25xc''"

definition base_class :: ledger_class where
  "base_class =
     \<lparr>cls_name = ''BaseLedger'', cls_bases = [], cls_symbol = None, cls_network_name = None\<rparr>"

definition main_class :: ledger_class where
  "main_class =
     \<lparr>cls_name = ''MainNetLedger'', cls_bases = [''BaseLedger''],
      cls_symbol = Some ''LBC'', cls_network_name = Some ''mainnet''\<rparr>"

definition other_class :: ledger_class where
  "other_class =
     \<lparr>cls_name = ''OtherLedger'', cls_bases = [''BaseLedger''],
      cls_symbol = Some ''lbc'', cls_network_name = Some ''MainNet''\<rparr>"

subsection \<open>A sample ledger\<close>

text \<open>
  A ledger with three headers whose address \<open>sample_address\<close> has the stored history
  \<^verbatim>\<open>cc:1:bb:2:\<close>, both transactions verified, and a network that returns a given remote
  history, serves a transaction's own id as its raw hex, proves every transaction with an
  empty branch, and has one more header to offer.  The stand-in transaction decoder
  takes the id of a transaction to be the hex of its bytes.
\<close>

definition sample_transaction_class :: "bytes \<Rightarrow> error + transaction" where
  "sample_transaction_class raw = Inr \<lparr>tx_id = hexlify raw, tx_hash = raw, tx_raw = raw\<rparr>"

definition sample_network :: "(string \<times> int) list \<Rightarrow> network" where
  "sample_network history =
     \<lparr>net_get_history = (\<lambda>address. Inr history),
      net_get_transaction = (\<lambda>txid. Inr txid),
      net_get_merkle = (\<lambda>txid height. Inr ([], 0)),
      net_get_headers = (\<lambda>height count. if height < 4 then Inr (1, ''dd'') else Inr (0, []))\<rparr>"

definition sample_env :: "(string \<times> int) list \<Rightarrow> env" where
  "sample_env history =
     \<lparr>network = sample_network history,
      transaction_class = sample_transaction_class,
      hash_double_sha256 = toy_hash,
      base58_decode_address = base58_decode,
      deserialize_headers = (\<lambda>start data. Inr (map (\<lambda>b. \<lparr>merkle_root = hexlify [b]\<rparr>) data)),
      get_unspent_outputs =
        (\<lambda>d account. Inr (filter (\<lambda>t. t \<notin> set (db_reserved d)) [(''bb'', 0)])),
      get_estimator = (\<lambda>t. \<lparr>est_txo = t, est_effective_amount = 1000\<rparr>),
      coin_select =
        (\<lambda>txos amount cost.
           Inr (if amount \<le> sum_list (map est_effective_amount txos) then txos else [])),
      pay_pubkey_hash_size = 34,
      fee_per_byte = 10,
      reserve_outputs_failure = (\<lambda>d txos. None)\<rparr>"

definition tx_aa :: transaction where
  "tx_aa = \<lparr>tx_id = ''aa'', tx_hash = [0xaa], tx_raw = [0xaa]\<rparr>"

definition tx_bb :: transaction where
  "tx_bb = \<lparr>tx_id = ''bb'', tx_hash = [0xbb], tx_raw = [0xbb]\<rparr>"

definition sample_database :: database where
  "sample_database =
     \<lparr>db_address = [sample_address \<mapsto> Some ''cc:1:bb:2:''],
      db_tx = [''cc'' \<mapsto> ([0xcc], 1, 1), ''bb'' \<mapsto> ([0xbb], 2, 1)],
      db_reserved = []\<rparr>"

definition sample_headers :: "header list" where
  "sample_headers = [\<lparr>merkle_root = ''00''\<rparr>, \<lparr>merkle_root = ''aa''\<rparr>, \<lparr>merkle_root = ''bb''\<rparr>]"

definition sample_ledger :: ledger where
  "sample_ledger =
     \<lparr>db = sample_database,
      headers = sample_headers,
      transaction_processing_locks = Map.empty,
      utxo_reservation_lock = False,
      header_processing_lock = False,
      on_transaction = [],
      on_header = [],
      calls = []\<rparr>"

text \<open>
  The sample ledger after one and after two runs of \<^verbatim>\<open>update_history\<close> against the
  remote history \<^verbatim>\<open>[aa at height 1, bb at height 2]\<close>.
\<close>

definition sample_remote :: "(string \<times> int) list" where
  "sample_remote = [(''aa'', 1), (''bb'', 2)]"

definition sample_ledger_1 :: ledger where
  "sample_ledger_1 =
     sample_ledger
       \<lparr>db := \<lparr>db_address = [sample_address \<mapsto> Some ''aa:1:''],
                db_tx = [''cc'' \<mapsto> ([0xcc], 1, 1), ''bb'' \<mapsto> ([0xbb], 2, 1),
                         ''aa'' \<mapsto> ([0xaa], 1, 1)],
                db_reserved = []\<rparr>,
         on_transaction := [TransactionEvent sample_address tx_aa 1 1],
         calls := [GetMerkle ''aa'' 1,
                   SaveTransactionIO (Some ''insert'') ''aa'' 1 1 sample_address sample_h160
                     ''aa:1:'']\<rparr>"

definition sample_ledger_2 :: ledger where
  "sample_ledger_2 =
     sample_ledger_1
       \<lparr>db := \<lparr>db_address = [sample_address \<mapsto> Some ''aa:1:bb:2:''],
                db_tx = [''cc'' \<mapsto> ([0xcc], 1, 1), ''bb'' \<mapsto> ([0xbb], 2, 1),
                         ''aa'' \<mapsto> ([0xaa], 1, 1)],
                db_reserved = []\<rparr>,
         on_transaction := [TransactionEvent sample_address tx_aa 1 1,
                            TransactionEvent sample_address tx_bb 2 1],
         calls := [GetMerkle ''aa'' 1,
                   SaveTransactionIO (Some ''insert'') ''aa'' 1 1 sample_address sample_h160
                     ''aa:1:'',
                   SaveTransactionIO None ''bb'' 2 1 sample_address sample_h160
                     ''aa:1:bb:2:'']\<rparr>"

text \<open>
  Variants of the sample parameters in which, in turn, the database fails to reserve, reading
  an account fails, and coin selection fails.
\<close>

definition failing_env :: env where
  "failing_env = (sample_env [])\<lparr>reserve_outputs_failure := (\<lambda>d txos. Some DatabaseError)\<rparr>"

definition no_accounts_env :: env where
  "no_accounts_env = (sample_env [])\<lparr>get_unspent_outputs := (\<lambda>d account. Inl DatabaseError)\<rparr>"

definition no_selection_env :: env where
  "no_selection_env = (sample_env [])\<lparr>coin_select := (\<lambda>txos amount cost. Inl SelectionError)\<rparr>"

section \<open>Properties of the Merkle verifier\<close>

lemma bit_test_int: "(drop_bit i (k :: int) AND 1 \<noteq> 0) = bit k i"
  by (simp add: bit_iff_and_drop_bit_eq_1 and_one_eq mod_2_eq_odd)

lemma spec_merkle_step_pair:
  "spec_merkle_step f positions w (i, sibling) =
     f (if bit positions i then sibling @ w else w @ sibling)"
  by (simp add: spec_merkle_step_def)

lemma merkle_loop_fold:
  "merkle_loop f i branches positions w =
     (case unhexlify_all branches of
        Inl e \<Rightarrow> Inl e
      | Inr decoded \<Rightarrow> Inr (foldl (spec_merkle_step f positions) w (enumerate i (map rev decoded))))"
proof (induction branches arbitrary: i w)
  case Nil
  show ?case by simp
next
  case (Cons b bs)
  show ?case
  proof (cases "unhexlify b")
    case (Inl e)
    then show ?thesis by simp
  next
    case (Inr raw)
    then show ?thesis
      by (simp add: Cons.IH bit_test_int spec_merkle_step_pair Let_def split: sum.splits)
  qed
qed

text \<open>
  C2.  For every list of hex branches, every bitmask and every starting hash,
  \<^verbatim>\<open>get_root_of_merkle_tree\<close> is the fold the specification describes: the branches are
  decoded and byte-reversed, sibling \<open>i\<close> is put on the left of the working hash iff
  bit \<open>i\<close> of the bitmask is 1 and on the right otherwise, the working hash becomes the
  double SHA-256 of the concatenation, and the result is the last working hash reversed
  and hex-encoded.  A branch that is not hexadecimal text raises the decoder's error.
\<close>

theorem get_root_of_merkle_tree_is_fold:
  "get_root_of_merkle_tree double_sha256 branches branch_positions working_branch =
     (case unhexlify_all branches of
        Inl e \<Rightarrow> Inl e
      | Inr decoded \<Rightarrow>
          Inr (spec_merkle_root double_sha256 decoded branch_positions working_branch))"
  by (simp add: get_root_of_merkle_tree_def merkle_loop_fold spec_merkle_root_def
      split: sum.splits)

section \<open>Properties of the address codec\<close>

lemma sample_raw_address_eq:
  "[0x55] @ sample_h160 @ take 4 (toy_hash ([0x55] @ sample_h160)) = sample_raw_address"
  by (simp add: sample_h160_def toy_hash_def sample_raw_address_def)

lemma base58_encode_sample: "base58_encode sample_raw_address = sample_address"
  by (simp add: base58_encode_def sample_raw_address_def bytes_to_int_def base58_chars_def
      sample_address_def)

lemma base58_decode_sample: "base58_decode sample_address = Inr sample_raw_address"
  by (simp add: base58_decode_def sample_raw_address_def base58_chars_def sample_address_def)

text \<open>
  C8.  Let \<open>address\<close> be a well-formed address of the ledger's prefix: the Base58 text of
  a one-byte prefix, a 20-byte hash160 and the first four bytes of the double SHA-256 of
  the two, which the codec decodes back to those bytes.  Then \<^verbatim>\<open>address_to_hash160\<close>
  returns the hash160, and \<^verbatim>\<open>hash160_to_address\<close> of it is \<open>address\<close> again.
\<close>

theorem address_round_trip:
  assumes prefix: "length pubkey_address_prefix = 1"
    and h160: "length h160 = 20"
    and address: "address = b58encode (pubkey_address_prefix @ h160
                     @ take 4 (double_sha256 (pubkey_address_prefix @ h160)))"
    and codec: "b58decode address = Inr (pubkey_address_prefix @ h160
                     @ take 4 (double_sha256 (pubkey_address_prefix @ h160)))"
  shows "(case address_to_hash160 b58decode address of
            Inl e \<Rightarrow> False
          | Inr h \<Rightarrow> h = h160 \<and>
              hash160_to_address b58encode double_sha256 pubkey_address_prefix h = address)"
  using assms by (simp add: address_to_hash160_def hash160_to_address_def)

theorem address_round_trip_witness:
  "address_to_hash160 base58_decode sample_address = Inr sample_h160
   \<and> hash160_to_address base58_encode toy_hash [0x55] sample_h160 = sample_address"
proof -
  have p: "length [0x55 :: byte] = 1" by simp
  have h: "length sample_h160 = 20" by (simp add: sample_h160_def)
  have a: "sample_address =
      base58_encode ([0x55] @ sample_h160 @ take 4 (toy_hash ([0x55] @ sample_h160)))"
    by (simp only: sample_raw_address_eq base58_encode_sample)
  have d: "base58_decode sample_address =
      Inr ([0x55] @ sample_h160 @ take 4 (toy_hash ([0x55] @ sample_h160)))"
    by (simp only: sample_raw_address_eq base58_decode_sample)
  from address_round_trip [where b58encode = base58_encode and b58decode = base58_decode
      and ?double_sha256.0 = toy_hash and pubkey_address_prefix = "[0x55]"
      and ?h160.0 = sample_h160, OF p h a d]
  show ?thesis
    by (simp split: sum.splits)
qed

section \<open>Properties of the ledger registry\<close>

lemma registry_new_keeps:
  "registry_new ledgers cls = Inr ledgers' \<Longrightarrow> ledgers k = Some c \<Longrightarrow> ledgers' k = Some c"
  by (auto simp: registry_new_def split: if_splits sum.splits)

lemma define_classes_keeps:
  "ledgers k = Some c \<Longrightarrow> define_classes ledgers rest k = Some c"
proof (induction rest arbitrary: ledgers)
  case Nil
  then show ?case by simp
next
  case (Cons cls rest)
  show ?case
  proof (cases "registry_new ledgers cls")
    case (Inl e)
    with Cons show ?thesis by simp
  next
    case (Inr ledgers')
    with Cons registry_new_keeps [OF Inr] show ?thesis by simp
  qed
qed

lemma registry_new_no_base:
  assumes new: "registry_new ledgers cls = Inr ledgers'"
    and old: "\<forall>c\<in>ran ledgers. \<not> is_base_ledger c"
  shows "\<forall>c\<in>ran ledgers'. \<not> is_base_ledger c"
proof (cases "is_base_ledger cls")
  case True
  with new have "ledgers' = ledgers"
    by (simp add: registry_new_def is_base_ledger_def)
  with old show ?thesis by simp
next
  case False
  with new obtain ledger_id where upd: "ledgers' = ledgers(ledger_id \<mapsto> cls)"
    by (auto simp: registry_new_def is_base_ledger_def split: if_splits sum.splits)
  show ?thesis
  proof
    fix c
    assume "c \<in> ran ledgers'"
    then obtain k where k: "ledgers' k = Some c"
      by (auto simp: ran_def)
    show "\<not> is_base_ledger c"
    proof (cases "k = ledger_id")
      case True
      with k upd have "c = cls" by simp
      with False show ?thesis by simp
    next
      case False
      with k upd have "ledgers k = Some c" by simp
      then have "c \<in> ran ledgers" by (auto simp: ran_def)
      with old show ?thesis by blast
    qed
  qed
qed

lemma define_classes_no_base:
  "\<forall>c\<in>ran ledgers. \<not> is_base_ledger c \<Longrightarrow>
   \<forall>c\<in>ran (define_classes ledgers rest). \<not> is_base_ledger c"
proof (induction rest arbitrary: ledgers)
  case Nil
  then show ?case by simp
next
  case (Cons cls rest)
  show ?case
  proof (cases "registry_new ledgers cls")
    case (Inl e)
    with Cons show ?thesis by simp
  next
    case (Inr ledgers')
    with Cons registry_new_no_base [OF Inr] show ?thesis by simp
  qed
qed

text \<open>
  C9.  The registry holds one class per ledger id.  (1) A class statement whose id is
  already registered ends in the assertion error.  (2) The statement of the base class,
  named \<^verbatim>\<open>BaseLedger\<close> and without bases, leaves the registry as it is, (3) and no
  later class statement puts a base class into a registry that holds none.  (4) Every
  other class whose statement succeeds is what \<^verbatim>\<open>get_ledger_class\<close> returns for its id,
  whatever class statements follow.
\<close>

theorem ledger_registry_one_variant_per_id:
  "(\<not> is_base_ledger cls \<and> get_id cls = Inr ledger_id \<and> ledgers ledger_id \<noteq> None \<longrightarrow>
      registry_new ledgers cls = Inl (AssertionError (already_registered ledger_id)))
   \<and> (is_base_ledger cls \<longrightarrow> registry_new ledgers cls = Inr ledgers)
   \<and> ((\<forall>c\<in>ran ledgers. \<not> is_base_ledger c) \<longrightarrow>
        (\<forall>c\<in>ran (define_classes ledgers rest). \<not> is_base_ledger c))
   \<and> (\<not> is_base_ledger cls \<and> get_id cls = Inr ledger_id
        \<and> registry_new ledgers cls = Inr ledgers' \<longrightarrow>
        get_ledger_class (define_classes ledgers' rest) ledger_id = Inr cls)"
proof (intro conjI impI)
  assume "\<not> is_base_ledger cls \<and> get_id cls = Inr ledger_id \<and> ledgers ledger_id \<noteq> None"
  then show "registry_new ledgers cls = Inl (AssertionError (already_registered ledger_id))"
    by (auto simp: registry_new_def is_base_ledger_def)
next
  assume "is_base_ledger cls"
  then show "registry_new ledgers cls = Inr ledgers"
    by (simp add: registry_new_def is_base_ledger_def)
next
  assume "\<forall>c\<in>ran ledgers. \<not> is_base_ledger c"
  then show "\<forall>c\<in>ran (define_classes ledgers rest). \<not> is_base_ledger c"
    by (rule define_classes_no_base)
next
  assume a: "\<not> is_base_ledger cls \<and> get_id cls = Inr ledger_id
        \<and> registry_new ledgers cls = Inr ledgers'"
  then have "ledgers' ledger_id = Some cls"
    by (auto simp: registry_new_def is_base_ledger_def split: if_splits)
  then have "define_classes ledgers' rest ledger_id = Some cls"
    by (rule define_classes_keeps)
  then show "get_ledger_class (define_classes ledgers' rest) ledger_id = Inr cls"
    by (simp add: get_ledger_class_def)
qed

lemma sample_class_ids:
  "get_id main_class = Inr ''lbc_mainnet''" "get_id other_class = Inr ''lbc_mainnet''"
  by (simp_all add: get_id_def main_class_def other_class_def lower_def lower_char_def)

theorem ledger_registry_witness:
  "registry_new Map.empty base_class = Inr Map.empty
   \<and> registry_new Map.empty main_class = Inr [''lbc_mainnet'' \<mapsto> main_class]
   \<and> registry_new [''lbc_mainnet'' \<mapsto> main_class] other_class =
        Inl (AssertionError (already_registered ''lbc_mainnet''))
   \<and> get_ledger_class
        (define_classes [''lbc_mainnet'' \<mapsto> main_class] [other_class, base_class])
        ''lbc_mainnet'' = Inr main_class
   \<and> base_class \<notin> ran (define_classes Map.empty [base_class, main_class, other_class])"
proof -
  have nb: "\<not> is_base_ledger main_class" "\<not> is_base_ledger other_class"
    "is_base_ledger base_class"
    by (simp_all add: is_base_ledger_def main_class_def other_class_def base_class_def)
  have new: "registry_new Map.empty main_class = Inr [''lbc_mainnet'' \<mapsto> main_class]"
    using nb by (simp add: registry_new_def sample_class_ids is_base_ledger_def)
  have e: "\<forall>c\<in>ran (Map.empty :: registry). \<not> is_base_ledger c" by simp
  note w1 = ledger_registry_one_variant_per_id [of other_class "''lbc_mainnet''"
      "[''lbc_mainnet'' \<mapsto> main_class]" "[]" Map.empty]
  note w2 = ledger_registry_one_variant_per_id [of base_class "''x''" Map.empty
      "[base_class, main_class, other_class]" Map.empty]
  note w3 = ledger_registry_one_variant_per_id [of main_class "''lbc_mainnet''" Map.empty
      "[other_class, base_class]" "[''lbc_mainnet'' \<mapsto> main_class]"]
  from w1 nb sample_class_ids
  have c3: "registry_new [''lbc_mainnet'' \<mapsto> main_class] other_class =
        Inl (AssertionError (already_registered ''lbc_mainnet''))" by simp
  from w2 nb have c1: "registry_new Map.empty base_class = Inr Map.empty" by simp
  from w2 e nb
  have c5: "base_class \<notin> ran (define_classes Map.empty [base_class, main_class, other_class])"
    by blast
  from w3 nb sample_class_ids new
  have c4: "get_ledger_class
        (define_classes [''lbc_mainnet'' \<mapsto> main_class] [other_class, base_class])
        ''lbc_mainnet'' = Inr main_class" by simp
  from c1 new c3 c4 c5 show ?thesis by simp
qed

section \<open>Properties of the history synchronizer\<close>

lemma saved_histories_append:
  "saved_histories (xs @ ys) = saved_histories xs @ saved_histories ys"
  by (simp add: saved_histories_def)

lemma saved_histories_simps:
  "saved_histories [] = []"
  "saved_histories [GetMerkle t h] = []"
  "saved_histories [SaveTransactionIO m t h v a h160 history] = [history]"
  by (simp_all add: saved_histories_def)

lemma is_valid_transaction_state:
  assumes "is_valid_transaction e st tx height = (r, st1)"
  shows "db st1 = db st \<and> on_transaction st1 = on_transaction st
       \<and> transaction_processing_locks st1 = transaction_processing_locks st
       \<and> headers st1 = headers st
       \<and> saved_histories (calls st1) = saved_histories (calls st)"
  using assms
  by (auto simp: is_valid_transaction_def Let_def saved_histories_append saved_histories_simps
      split: if_splits sum.splits prod.splits)

lemma save_and_publish_ok:
  assumes "save_and_publish e st address save_tx tx height v synced = (Inr u, st1)"
  shows "\<exists>h160. address_to_hash160 (base58_decode_address e) address = Inr h160
     \<and> st1 = st\<lparr>db := db_save_transaction_io (db st) save_tx tx height v address h160
                       (history_string synced),
               calls := calls st @ [SaveTransactionIO save_tx (tx_id tx) height v address h160
                                      (history_string synced)],
               on_transaction := on_transaction st @ [TransactionEvent address tx height v]\<rparr>"
  using assms
  by (auto simp: save_and_publish_def Let_def split: sum.splits)

lemma db_save_address:
  "db_address (db_save_transaction_io d m tx h v address h160 history) a =
     (if a = address \<and> db_address d address \<noteq> None then Some (Some history) else db_address d a)"
  by (auto simp: db_save_transaction_io_def Let_def split: option.splits)

lemma sync_locked_ok:
  assumes "sync_locked e st address hex_id height synced = (Inr u, st1)"
  shows "saved_histories (calls st1) = saved_histories (calls st) @ [history_string synced]
     \<and> db_address (db st1) =
        (\<lambda>a. if a = address \<and> db_address (db st) address \<noteq> None
             then Some (Some (history_string synced)) else db_address (db st) a)
     \<and> transaction_processing_locks st1 = transaction_processing_locks st"
proof -
  from assms obtain tx save_tx v where
    load: "load_transaction e st hex_id = Inr (tx, save_tx, v)"
    by (auto simp: sync_locked_def split: sum.splits)
  show ?thesis
  proof (cases "height > 0 \<and> v = 0")
    case True
    with assms load obtain valid st0 where
      valid: "is_valid_transaction e st tx height = (Inr valid, st0)"
      and save: "save_and_publish e st0 address (if save_tx = None then Some ''update'' else save_tx)
                   tx height (if valid then 1 else 0) synced = (Inr u, st1)"
      by (auto simp: sync_locked_def split: sum.splits prod.splits)
    from is_valid_transaction_state [OF valid] save_and_publish_ok [OF save]
    show ?thesis
      by (auto simp: saved_histories_append saved_histories_simps db_save_address fun_eq_iff)
  next
    case False
    with assms load have
      save: "save_and_publish e st address save_tx tx height v synced = (Inr u, st1)"
      by (auto simp: sync_locked_def split: sum.splits prod.splits)
    from save_and_publish_ok [OF save]
    show ?thesis
      by (auto simp: saved_histories_append saved_histories_simps db_save_address fun_eq_iff)
  qed
qed

lemma sync_transaction_ok:
  assumes "sync_transaction e st address hex_id height synced = (Inr u, st1)"
  shows "saved_histories (calls st1) = saved_histories (calls st) @ [history_string synced]
     \<and> db_address (db st1) =
        (\<lambda>a. if a = address \<and> db_address (db st) address \<noteq> None
             then Some (Some (history_string synced)) else db_address (db st) a)"
proof -
  from assms obtain st0 where
    "sync_locked e (st\<lparr>transaction_processing_locks :=
              (transaction_processing_locks st)(hex_id \<mapsto> True)\<rparr>) address hex_id height synced
       = (Inr u, st0)"
    and "st1 = st0\<lparr>transaction_processing_locks :=
              (transaction_processing_locks st0)(hex_id := None)\<rparr>"
    by (auto simp: sync_transaction_def Let_def split: if_splits prod.splits)
  with sync_locked_ok [OF this(1)] show ?thesis by (simp cong: if_cong)
qed


lemma sync_entries_all_matched:
  "(\<forall>j<length rest. i + j < length local_history \<and> local_history ! (i + j) = rest ! j) \<Longrightarrow>
   sync_entries e address local_history i synced rest st = (Inr (), st)"
proof (induction rest arbitrary: i synced)
  case Nil
  show ?case by simp
next
  case (Cons x rest)
  obtain hex_id height where x: "x = (hex_id, height)" by (cases x)
  from Cons.prems have head: "i < length local_history \<and> local_history ! i = x"
    by (metis add.right_neutral length_greater_0_conv list.discI nth_Cons_0)
  have tail: "\<forall>j<length rest. Suc i + j < length local_history
                \<and> local_history ! (Suc i + j) = rest ! j"
  proof (intro allI impI)
    fix j assume "j < length rest"
    then have "Suc j < length (x # rest)" by simp
    with Cons.prems have "i + Suc j < length local_history
        \<and> local_history ! (i + Suc j) = (x # rest) ! Suc j" by blast
    then show "Suc i + j < length local_history \<and> local_history ! (Suc i + j) = rest ! j"
      by simp
  qed
  from head x Cons.IH [OF tail] show ?case by (simp add: Let_def)
qed

lemma sync_entries_saved:
  "sync_entries e address local_history i synced rest st = (Inr u, st1) \<Longrightarrow>
   saved_histories (calls st1) = saved_histories (calls st)
     @ map (\<lambda>j. history_string (synced @ take (Suc j) rest))
         (filter (\<lambda>j. \<not> (i + j < length local_history \<and> local_history ! (i + j) = rest ! j))
            [0..<length rest])"
proof (induction rest arbitrary: i synced st)
  case Nil
  then show ?case by simp
next
  case (Cons x rest)
  obtain hex_id height where x: "x = (hex_id, height)" by (cases x)
  have shift: "[0..<length (x # rest)] = 0 # map Suc [0..<length rest]"
    by (simp add: upt_conv_Cons map_Suc_upt del: upt_Suc)
  show ?case
  proof (cases "i < length local_history \<and> local_history ! i = x")
    case True
    with Cons.prems x have
      "sync_entries e address local_history (Suc i) (synced @ [x]) rest st = (Inr u, st1)"
      by (simp add: Let_def)
    from Cons.IH [OF this] True show ?thesis
      by (simp only: shift) (simp add: filter_map o_def)
  next
    case False
    with Cons.prems x obtain u0 st0 where
      step: "sync_transaction e st address hex_id height (synced @ [x]) = (Inr u0, st0)"
      and more: "sync_entries e address local_history (Suc i) (synced @ [x]) rest st0 = (Inr u, st1)"
      by (auto simp: Let_def split: prod.splits sum.splits)
    from Cons.IH [OF more] sync_transaction_ok [OF step] False show ?thesis
      by (simp only: shift) (simp add: filter_map o_def)
  qed
qed


lemma sync_entries_last:
  "sync_entries e address local_history i synced rest st = (Inr u, st1) \<Longrightarrow>
   rest \<noteq> [] \<Longrightarrow>
   \<not> (i + (length rest - 1) < length local_history
      \<and> local_history ! (i + (length rest - 1)) = last rest) \<Longrightarrow>
   db_address (db st) address \<noteq> None \<Longrightarrow>
   db_address (db st1) address = Some (Some (history_string (synced @ rest)))"
proof (induction rest arbitrary: i synced st)
  case Nil
  then show ?case by simp
next
  case (Cons x rest)
  obtain hex_id height where x: "x = (hex_id, height)" by (cases x)
  show ?case
  proof (cases "rest = []")
    case True
    with Cons.prems x obtain u0 where
      "sync_transaction e st address hex_id height (synced @ [x]) = (Inr u0, st1)"
      by (auto simp: Let_def split: prod.splits sum.splits)
    from sync_transaction_ok [OF this] Cons.prems(4) True show ?thesis by simp
  next
    case False
    then have idx: "i + (length (x # rest) - 1) = Suc i + (length rest - 1)"
      by (cases rest) simp_all
    from False Cons.prems(3) have
      last: "\<not> (Suc i + (length rest - 1) < length local_history
              \<and> local_history ! (Suc i + (length rest - 1)) = last rest)"
      by (simp only: idx) simp
    show ?thesis
    proof (cases "i < length local_history \<and> local_history ! i = x")
      case True
      with Cons.prems(1) x have
        "sync_entries e address local_history (Suc i) (synced @ [x]) rest st = (Inr u, st1)"
        by (simp add: Let_def)
      from Cons.IH [OF this False last Cons.prems(4)] show ?thesis by simp
    next
      case unmatched: False
      with Cons.prems(1) x obtain u0 st0 where
        step: "sync_transaction e st address hex_id height (synced @ [x]) = (Inr u0, st0)"
        and more: "sync_entries e address local_history (Suc i) (synced @ [x]) rest st0 = (Inr u, st1)"
        by (auto simp: Let_def split: prod.splits sum.splits)
      from sync_transaction_ok [OF step] Cons.prems(4)
      have "db_address (db st0) address \<noteq> None" by simp
      from Cons.IH [OF more False last this] show ?thesis by simp
    qed
  qed
qed

text \<open>
  C1, as amended.  Let \<^verbatim>\<open>update_history(address)\<close> complete without error, the network
  having returned \<open>remote_history\<close> and the stored history column parsing to
  \<open>local_history\<close>.  (1) The history texts passed to the database during the run are,
  in order, the concatenations of \<^verbatim>\<open><txid>:<height>:\<close> over the prefix of the
  remote list that ends with the entry being processed, one for each entry that is not
  skipped.  (2) If the last remote entry is not skipped, the history column stored for the
  address is afterwards the concatenation over the whole remote list.  (3) If every
  entry is skipped, in particular if the remote list is empty, nothing is written: the
  ledger, its database included, is as before.
\<close>

theorem update_history_writes_prefixes:
  assumes remote: "net_get_history (network e) address = Inr remote_history"
    and local: "get_local_history (db st) address = Inr local_history"
    and run: "update_history e address st = (Inr (), st1)"
  shows "saved_histories (calls st1) =
           saved_histories (calls st)
           @ map (\<lambda>i. history_string (take (Suc i) remote_history))
               (unmatched local_history remote_history)
       \<and> (remote_history \<noteq> []
            \<and> length remote_history - 1 \<in> set (unmatched local_history remote_history) \<longrightarrow>
          db_address (db st1) address = Some (Some (history_string remote_history)))
       \<and> (unmatched local_history remote_history = [] \<longrightarrow> st1 = st)"
proof -
  from assms have loop:
    "sync_entries e address local_history 0 [] remote_history st = (Inr (), st1)"
    by (simp add: update_history_def)
  from local have row: "db_address (db st) address \<noteq> None"
    by (auto simp: get_local_history_def split: option.splits)
  have saves: "saved_histories (calls st1) =
           saved_histories (calls st)
           @ map (\<lambda>i. history_string (take (Suc i) remote_history))
               (unmatched local_history remote_history)"
    using sync_entries_saved [OF loop] by (simp add: unmatched_def)
  have stored: "db_address (db st1) address = Some (Some (history_string remote_history))"
    if "remote_history \<noteq> []"
      and "length remote_history - 1 \<in> set (unmatched local_history remote_history)"
  proof -
    from that have "\<not> (0 + (length remote_history - 1) < length local_history
      \<and> local_history ! (0 + (length remote_history - 1)) = last remote_history)"
      by (simp add: unmatched_def last_conv_nth)
    from sync_entries_last [OF loop that(1) this row] show ?thesis by simp
  qed
  have same: "st1 = st" if "unmatched local_history remote_history = []"
  proof -
    from that have "\<forall>j<length remote_history. 0 + j < length local_history
        \<and> local_history ! (0 + j) = remote_history ! j"
      by (auto simp: unmatched_def filter_empty_conv)
    from sync_entries_all_matched [OF this, of e address "[]" st] loop show ?thesis by simp
  qed
  from saves stored same show ?thesis by blast
qed

subsection \<open>Runs over the sample ledger\<close>

lemmas hex_eval = hex_digit_value_def hexlify_def hex_digit_def
lemmas int_eval = str_int_def digit_char_def py_int_def parse_unsigned_def

lemma sample_env_fields:
  "network (sample_env h) = sample_network h"
  "transaction_class (sample_env h) = sample_transaction_class"
  "hash_double_sha256 (sample_env h) = toy_hash"
  "base58_decode_address (sample_env h) = base58_decode"
  by (simp_all add: sample_env_def)

lemma sample_network_fields:
  "net_get_history (sample_network h) a = Inr h"
  "net_get_transaction (sample_network h) t = Inr t"
  "net_get_merkle (sample_network h) t k = Inr ([], 0)"
  by (simp_all add: sample_network_def)

lemma sample_hash160: "address_to_hash160 base58_decode sample_address = Inr sample_h160"
  by (simp add: address_to_hash160_def base58_decode_sample sample_raw_address_def sample_h160_def)

lemma sample_local_0: "get_local_history (db sample_ledger) sample_address = Inr [(''cc'', 1), (''bb'', 2)]"
  by (simp add: get_local_history_def sample_ledger_def sample_database_def int_eval)

lemma sample_local_1: "get_local_history (db sample_ledger_1) sample_address = Inr [(''aa'', 1)]"
  by (simp add: get_local_history_def sample_ledger_1_def int_eval)

lemma sample_local_2: "get_local_history (db sample_ledger_2) sample_address = Inr [(''aa'', 1), (''bb'', 2)]"
  by (simp add: get_local_history_def sample_ledger_2_def int_eval)

lemma sample_load_aa:
  "db_tx (db st) ''aa'' = None \<Longrightarrow>
   load_transaction (sample_env h) st ''aa'' = Inr (tx_aa, Some ''insert'', 0)"
  by (simp add: load_transaction_def db_get_transaction_def sample_env_fields
      sample_network_fields sample_transaction_class_def hex_eval tx_aa_def)

lemma sample_load_bb:
  "db_tx (db st) ''bb'' = Some ([0xbb], 2, 1) \<Longrightarrow>
   load_transaction (sample_env h) st ''bb'' = Inr (tx_bb, None, 1)"
  by (simp add: load_transaction_def db_get_transaction_def sample_env_fields
      sample_transaction_class_def hex_eval tx_bb_def)

lemma sample_valid_aa:
  "headers st = sample_headers \<Longrightarrow>
   is_valid_transaction (sample_env h) st tx_aa 1 =
     (Inr True, st\<lparr>calls := calls st @ [GetMerkle ''aa'' 1]\<rparr>)"
  by (simp add: is_valid_transaction_def sample_env_fields sample_network_fields
      get_root_of_merkle_tree_def header_at_def hex_eval tx_aa_def sample_headers_def)

lemma sample_ledger_fields:
  "db sample_ledger = sample_database"
  "headers sample_ledger = sample_headers"
  "headers sample_ledger_1 = sample_headers"
  "transaction_processing_locks sample_ledger = Map.empty"
  "transaction_processing_locks sample_ledger_1 = Map.empty"
  by (simp_all add: sample_ledger_def sample_ledger_1_def)

lemma sample_step_aa:
  "sync_transaction (sample_env h) sample_ledger sample_address ''aa'' 1 [(''aa'', 1)] =
     (Inr (), sample_ledger_1)"
proof -
  have load: "load_transaction (sample_env h)
      (sample_ledger\<lparr>transaction_processing_locks := [''aa'' \<mapsto> True]\<rparr>) ''aa'' =
      Inr (tx_aa, Some ''insert'', 0)"
    by (rule sample_load_aa) (simp add: sample_ledger_fields sample_database_def)
  have valid: "is_valid_transaction (sample_env h)
      (sample_ledger\<lparr>transaction_processing_locks := [''aa'' \<mapsto> True]\<rparr>) tx_aa 1 =
      (Inr True, sample_ledger\<lparr>transaction_processing_locks := [''aa'' \<mapsto> True],
          calls := calls sample_ledger @ [GetMerkle ''aa'' 1]\<rparr>)"
    by (simp add: sample_valid_aa sample_ledger_fields)
  show ?thesis
    apply (simp add: sync_transaction_def sample_ledger_fields load valid sync_locked_def
        save_and_publish_def sample_env_fields sample_hash160 Let_def)
    apply (simp add: sample_ledger_def sample_ledger_1_def sample_database_def
        db_save_transaction_io_def int_eval tx_aa_def)
    done
qed

lemma sample_step_bb:
  "sync_transaction (sample_env h) sample_ledger_1 sample_address ''bb'' 2
     [(''aa'', 1), (''bb'', 2)] = (Inr (), sample_ledger_2)"
proof -
  have load: "load_transaction (sample_env h)
      (sample_ledger_1\<lparr>transaction_processing_locks := [''bb'' \<mapsto> True]\<rparr>) ''bb'' =
      Inr (tx_bb, None, 1)"
    by (rule sample_load_bb) (simp add: sample_ledger_1_def)
  show ?thesis
    apply (simp add: sync_transaction_def sample_ledger_fields load sync_locked_def
        save_and_publish_def sample_env_fields sample_hash160 Let_def)
    apply (simp add: sample_ledger_def sample_ledger_1_def sample_ledger_2_def
        db_save_transaction_io_def int_eval tx_bb_def)
    done
qed

lemma sample_run_1:
  "update_history (sample_env sample_remote) sample_address sample_ledger = (Inr (), sample_ledger_1)"
  by (simp add: update_history_def sample_env_fields sample_network_fields sample_local_0
      sample_remote_def sample_step_aa)

lemma sample_run_2:
  "update_history (sample_env sample_remote) sample_address sample_ledger_1 = (Inr (), sample_ledger_2)"
  by (simp add: update_history_def sample_env_fields sample_network_fields sample_local_1
      sample_remote_def sample_step_bb)

lemma sample_run_3:
  "update_history (sample_env sample_remote) sample_address sample_ledger_2 = (Inr (), sample_ledger_2)"
  by (simp add: update_history_def sample_env_fields sample_network_fields sample_local_2
      sample_remote_def)

lemma sample_remote_history:
  "net_get_history (network (sample_env h)) a = Inr h"
  by (simp add: sample_env_fields sample_network_fields)

text \<open>
  The theorem at the second and the third run over the sample ledger: in the second the
  last entry is processed and the whole history is stored, in the third every entry is
  skipped.
\<close>

theorem update_history_writes_prefixes_witness:
  "update_history (sample_env sample_remote) sample_address sample_ledger_1
     = (Inr (), sample_ledger_2)
   \<and> unmatched [(''aa'', 1)] sample_remote = [1]
   \<and> saved_histories (calls sample_ledger_2) =
       saved_histories (calls sample_ledger_1) @ [history_string sample_remote]
   \<and> db_address (db sample_ledger_2) sample_address = Some (Some (history_string sample_remote))
   \<and> update_history (sample_env sample_remote) sample_address sample_ledger_2
     = (Inr (), sample_ledger_2)
   \<and> unmatched [(''aa'', 1), (''bb'', 2)] sample_remote = []"
proof -
  have u1: "unmatched [(''aa'', 1)] sample_remote = [1]"
    by (simp add: unmatched_def sample_remote_def upt_rec)
  have u2: "unmatched [(''aa'', 1), (''bb'', 2)] sample_remote = []"
    by (simp add: unmatched_def sample_remote_def upt_rec)
  have t: "take 2 sample_remote = sample_remote" "sample_remote \<noteq> []" "length sample_remote = 2"
    by (simp_all add: sample_remote_def)
  from update_history_writes_prefixes [OF sample_remote_history sample_local_1 sample_run_2]
  have "saved_histories (calls sample_ledger_2) =
       saved_histories (calls sample_ledger_1) @ [history_string sample_remote]
     \<and> db_address (db sample_ledger_2) sample_address = Some (Some (history_string sample_remote))"
    by (simp add: u1 t)
  with update_history_writes_prefixes [OF sample_remote_history sample_local_2 sample_run_3]
  show ?thesis
    using sample_run_2 sample_run_3 u1 u2 by simp
qed

text \<open>
  C1 as stated fails for an empty remote history: the run completes, writes nothing, and
  the stored history is still the old text, not the empty one.
\<close>

theorem update_history_empty_remote_counterexample:
  "fst (update_history (sample_env []) sample_address sample_ledger) = Inr ()
   \<and> db_address (db (snd (update_history (sample_env []) sample_address sample_ledger)))
        sample_address = Some (Some ''cc:1:bb:2:'')
   \<and> Some (Some ''cc:1:bb:2:'') \<noteq> Some (Some (history_string []))
   \<and> saved_histories (calls (snd (update_history (sample_env []) sample_address sample_ledger))) = []"
proof -
  have "update_history (sample_env []) sample_address sample_ledger = (Inr (), sample_ledger)"
    by (simp add: update_history_def sample_remote_history sample_local_0)
  then show ?thesis
    by (simp add: sample_ledger_def sample_database_def saved_histories_def)
qed

text \<open>
  C7.  Running \<^verbatim>\<open>update_history\<close> twice against an unchanged remote history should
  publish nothing the second time.  On the sample ledger it does publish: the stored
  history \<^verbatim>\<open>cc:1:bb:2:\<close> and the remote history \<^verbatim>\<open>[aa at 1, bb at 2]\<close> differ in
  the first entry only, so the first run writes \<^verbatim>\<open>aa:1:\<close> for the first entry and
  skips the second; the second run then finds the second entry missing from the stored
  history, saves it and publishes an event for it.
\<close>

theorem update_history_second_run_publishes:
  "update_history (sample_env sample_remote) sample_address sample_ledger
     = (Inr (), sample_ledger_1)
   \<and> update_history (sample_env sample_remote) sample_address sample_ledger_1
     = (Inr (), sample_ledger_2)
   \<and> on_transaction sample_ledger_2 =
       on_transaction sample_ledger_1 @ [TransactionEvent sample_address tx_bb 2 1]
   \<and> saved_histories (calls sample_ledger_2) =
       saved_histories (calls sample_ledger_1) @ [''aa:1:bb:2:'']"
  by (simp add: sample_run_1 sample_run_2)
    (simp add: sample_ledger_1_def sample_ledger_2_def saved_histories_def)

subsection \<open>Unconfirmed entries\<close>

lemma load_transaction_verified:
  "load_transaction e st hex_id = Inr (tx, save_tx, v) \<Longrightarrow>
   v = stored_is_verified (db st) hex_id \<and> (save_tx = Some ''insert'') = (db_tx (db st) hex_id = None)
   \<and> (save_tx = None) = (db_tx (db st) hex_id \<noteq> None)"
  by (auto simp: load_transaction_def db_get_transaction_def stored_is_verified_def
      split: option.splits sum.splits prod.splits)

lemma load_transaction_locks:
  "load_transaction e (st\<lparr>transaction_processing_locks := l\<rparr>) hex_id = load_transaction e st hex_id"
  by (simp add: load_transaction_def)

text \<open>
  C6, as amended.  Let the loop of \<^verbatim>\<open>update_history\<close> process, without error, a remote
  entry of height 0, the transaction being \<open>tx\<close> (read from the database or fetched)
  with the \<^verbatim>\<open>is_verified\<close> value \<open>v\<close> that the database returned for it.  Then no
  Merkle request is made: the only call logged is the one \<^verbatim>\<open>save_transaction_io\<close>, in
  mode \<^verbatim>\<open>insert\<close> exactly when the transaction was not stored.  The \<^verbatim>\<open>is_verified\<close>
  value saved and published in the \<^verbatim>\<open>TransactionEvent\<close> is \<open>v\<close>, the stored value: 0
  for a transaction that was absent or stored unverified.
\<close>

theorem unconfirmed_entry_keeps_stored_flag:
  assumes run: "sync_transaction e st address hex_id 0 synced = (Inr (), st1)"
    and load: "load_transaction e st hex_id = Inr (tx, save_tx, v)"
    and h160: "address_to_hash160 (base58_decode_address e) address = Inr h160"
  shows "v = stored_is_verified (db st) hex_id
       \<and> (save_tx = Some ''insert'') = (db_tx (db st) hex_id = None)
       \<and> calls st1 = calls st
            @ [SaveTransactionIO save_tx (tx_id tx) 0 v address h160 (history_string synced)]
       \<and> on_transaction st1 = on_transaction st @ [TransactionEvent address tx 0 v]
       \<and> db st1 = db_save_transaction_io (db st) save_tx tx 0 v address h160
                     (history_string synced)"
proof -
  from run load h160 have
    "st1 = st\<lparr>transaction_processing_locks := (transaction_processing_locks st)(hex_id := None),
       db := db_save_transaction_io (db st) save_tx tx 0 v address h160 (history_string synced),
       calls := calls st
            @ [SaveTransactionIO save_tx (tx_id tx) 0 v address h160 (history_string synced)],
       on_transaction := on_transaction st @ [TransactionEvent address tx 0 v]\<rparr>"
    by (auto simp: sync_transaction_def sync_locked_def load_transaction_locks
        save_and_publish_def Let_def split: if_splits)
  with load_transaction_verified [OF load] show ?thesis by simp
qed


lemma sample_unconfirmed_aa:
  "sync_transaction (sample_env h) sample_ledger sample_address ''aa'' 0 [(''aa'', 0)] =
     (Inr (),
      sample_ledger
        \<lparr>db := db_save_transaction_io sample_database (Some ''insert'') tx_aa 0 0 sample_address
                 sample_h160 ''aa:0:'',
          calls := [SaveTransactionIO (Some ''insert'') ''aa'' 0 0 sample_address sample_h160
                      ''aa:0:''],
          on_transaction := [TransactionEvent sample_address tx_aa 0 0]\<rparr>)"
proof -
  have load: "load_transaction (sample_env h)
      (sample_ledger\<lparr>transaction_processing_locks := [''aa'' \<mapsto> True]\<rparr>) ''aa'' =
      Inr (tx_aa, Some ''insert'', 0)"
    by (rule sample_load_aa) (simp add: sample_ledger_fields sample_database_def)
  show ?thesis
    apply (simp add: sync_transaction_def sample_ledger_fields load sync_locked_def
        save_and_publish_def sample_env_fields sample_hash160 Let_def)
    apply (simp add: sample_ledger_def int_eval tx_aa_def)
    done
qed

lemma sample_unconfirmed_bb:
  "sync_transaction (sample_env h) sample_ledger sample_address ''bb'' 0 [(''bb'', 0)] =
     (Inr (),
      sample_ledger
        \<lparr>db := db_save_transaction_io sample_database None tx_bb 0 1 sample_address
                 sample_h160 ''bb:0:'',
          calls := [SaveTransactionIO None ''bb'' 0 1 sample_address sample_h160 ''bb:0:''],
          on_transaction := [TransactionEvent sample_address tx_bb 0 1]\<rparr>)"
proof -
  have load: "load_transaction (sample_env h)
      (sample_ledger\<lparr>transaction_processing_locks := [''bb'' \<mapsto> True]\<rparr>) ''bb'' =
      Inr (tx_bb, None, 1)"
    by (rule sample_load_bb) (simp add: sample_ledger_fields sample_database_def)
  show ?thesis
    apply (simp add: sync_transaction_def sample_ledger_fields load sync_locked_def
        save_and_publish_def sample_env_fields sample_hash160 Let_def)
    apply (simp add: sample_ledger_def int_eval tx_bb_def)
    done
qed

theorem unconfirmed_entry_keeps_stored_flag_witness:
  "fst (sync_transaction (sample_env []) sample_ledger sample_address ''aa'' 0 [(''aa'', 0)])
     = Inr ()
   \<and> stored_is_verified (db sample_ledger) ''aa'' = 0
   \<and> calls (snd (sync_transaction (sample_env []) sample_ledger sample_address ''aa'' 0
        [(''aa'', 0)])) =
       [SaveTransactionIO (Some ''insert'') ''aa'' 0 0 sample_address sample_h160 ''aa:0:'']
   \<and> on_transaction (snd (sync_transaction (sample_env []) sample_ledger sample_address ''aa'' 0
        [(''aa'', 0)])) =
       [TransactionEvent sample_address tx_aa 0 0]"
proof -
  let ?run = "sync_transaction (sample_env []) sample_ledger sample_address ''aa'' 0 [(''aa'', 0)]"
  have ok: "fst ?run = Inr ()"
    by (simp add: sample_unconfirmed_aa)
  then have run: "?run = (Inr (), snd ?run)"
    by (metis prod.collapse)
  have load: "load_transaction (sample_env []) sample_ledger ''aa'' = Inr (tx_aa, Some ''insert'', 0)"
    by (rule sample_load_aa) (simp add: sample_ledger_fields sample_database_def)
  have h160: "address_to_hash160 (base58_decode_address (sample_env [])) sample_address
      = Inr sample_h160"
    by (simp add: sample_env_fields sample_hash160)
  have start: "calls sample_ledger = []" "on_transaction sample_ledger = []"
    by (simp_all add: sample_ledger_def)
  have shown: "history_string [(''aa'', 0)] = ''aa:0:''" "tx_id tx_aa = ''aa''"
    by (simp_all add: int_eval tx_aa_def)
  from unconfirmed_entry_keeps_stored_flag [OF run load h160] ok show ?thesis
    by (simp add: start shown int_eval)
qed

text \<open>
  C6 as stated fails when the transaction is already stored as verified: the sample
  ledger holds \<^verbatim>\<open>bb\<close> verified at height 2, the remote history lists it at height
  0, and the event published carries \<^verbatim>\<open>is_verified = 1\<close>.
\<close>

theorem unconfirmed_entry_verified_counterexample:
  "fst (update_history (sample_env [(''bb'', 0)]) sample_address sample_ledger) = Inr ()
   \<and> on_transaction (snd (update_history (sample_env [(''bb'', 0)]) sample_address sample_ledger))
       = [TransactionEvent sample_address tx_bb 0 1]
   \<and> calls (snd (update_history (sample_env [(''bb'', 0)]) sample_address sample_ledger))
       = [SaveTransactionIO None ''bb'' 0 1 sample_address sample_h160 ''bb:0:'']"
  by (simp add: update_history_def sample_remote_history sample_local_0 sample_unconfirmed_bb)


section \<open>Properties of transaction verification\<close>

text \<open>
  C10.  The guard of \<^verbatim>\<open>is_valid_transaction\<close> accepts a height at which there is no
  header.  At the height equal to the number of headers the header lookup is out of
  range; the guard does not return \<^verbatim>\<open>False\<close> there, so with a Merkle answer whose
  root can be computed the function raises at the lookup.  The guard returns
  \<^verbatim>\<open>False\<close> only for heights strictly greater than the number of headers; for every
  other height the Merkle request is made.
\<close>

theorem is_valid_transaction_guard_admits_length:
  "header_at (headers st) (int (length (headers st))) = Inl IndexError
   \<and> (net_get_merkle (network e) (tx_id tx) (int (length (headers st))) = Inr (merkle, pos)
        \<and> get_root_of_merkle_tree (hash_double_sha256 e) merkle pos (tx_hash tx) = Inr root \<longrightarrow>
      is_valid_transaction e st tx (int (length (headers st))) =
        (Inl IndexError,
         st\<lparr>calls := calls st @ [GetMerkle (tx_id tx) (int (length (headers st)))]\<rparr>))
   \<and> (int (length (headers st)) < height \<longrightarrow>
        is_valid_transaction e st tx height = (Inr False, st))
   \<and> (height \<le> int (length (headers st)) \<longrightarrow>
        calls (snd (is_valid_transaction e st tx height)) =
          calls st @ [GetMerkle (tx_id tx) height])"
  by (auto simp: is_valid_transaction_def header_at_def Let_def split: sum.splits prod.splits)


theorem is_valid_transaction_guard_admits_length_witness:
  "int (length (headers sample_ledger)) = 3
   \<and> header_at (headers sample_ledger) 3 = Inl IndexError
   \<and> is_valid_transaction (sample_env []) sample_ledger tx_aa 3 =
        (Inl IndexError, sample_ledger\<lparr>calls := calls sample_ledger @ [GetMerkle ''aa'' 3]\<rparr>)
   \<and> is_valid_transaction (sample_env []) sample_ledger tx_aa 4 = (Inr False, sample_ledger)
   \<and> calls (snd (is_valid_transaction (sample_env []) sample_ledger tx_aa 2)) =
        calls sample_ledger @ [GetMerkle ''aa'' 2]"
proof -
  have len: "int (length (headers sample_ledger)) = 3"
    by (simp add: sample_ledger_fields sample_headers_def)
  have merkle: "net_get_merkle (network (sample_env [])) (tx_id tx_aa)
      (int (length (headers sample_ledger))) = Inr ([], 0)"
    by (simp add: sample_env_fields sample_network_fields)
  have root: "get_root_of_merkle_tree (hash_double_sha256 (sample_env [])) [] 0 (tx_hash tx_aa)
      = Inr ''aa''"
    by (simp add: get_root_of_merkle_tree_def tx_aa_def hex_eval)
  have id: "tx_id tx_aa = ''aa''" by (simp add: tx_aa_def)
  note w = is_valid_transaction_guard_admits_length [of sample_ledger "sample_env []" tx_aa
      "[]" 0 "''aa''"]
  from w [of 4] w [of 2] merkle root show ?thesis
    by (simp add: len id)
qed

section \<open>Properties of the header sync loop\<close>

lemma header_appends_append:
  "header_appends (xs @ ys) = header_appends xs @ header_appends ys"
  by (simp add: header_appends_def)

lemma header_appends_connect:
  "header_appends [HeadersConnect start locked] = [locked]"
  by (simp add: header_appends_def)

lemma connect_and_publish_appends:
  assumes "connect_and_publish e st start hex = (r, st1)"
  shows "header_processing_lock st1 = header_processing_lock st
       \<and> (\<exists>k. header_appends (calls st1) =
                header_appends (calls st) @ replicate k (header_processing_lock st))"
proof (cases "unhexlify hex")
  case (Inl err)
  with assms have "st1 = st" by (simp add: connect_and_publish_def)
  then have "header_appends (calls st1) =
      header_appends (calls st) @ replicate 0 (header_processing_lock st)" by simp
  with \<open>st1 = st\<close> show ?thesis by blast
next
  case (Inr data)
  with assms have "header_processing_lock st1 = header_processing_lock st"
    and "calls st1 = calls st @ [HeadersConnect start (header_processing_lock st)]"
    by (auto simp: connect_and_publish_def Let_def split: sum.splits)
  then have "header_appends (calls st1) =
      header_appends (calls st) @ replicate 1 (header_processing_lock st)"
    by (simp add: header_appends_append header_appends_connect)
  with \<open>header_processing_lock st1 = header_processing_lock st\<close> show ?thesis by blast
qed

lemma update_headers_appends:
  "update_headers e fuel st = (r, st1) \<Longrightarrow>
   header_processing_lock st1 = header_processing_lock st
   \<and> (\<exists>k. header_appends (calls st1) =
            header_appends (calls st) @ replicate k (header_processing_lock st))"
proof (induction fuel arbitrary: st)
  case 0
  then have "st1 = st" by simp
  then have "header_appends (calls st1) =
      header_appends (calls st) @ replicate 0 (header_processing_lock st)" by simp
  with \<open>st1 = st\<close> show ?case by blast
next
  case (Suc fuel)
  show ?case
  proof (cases "net_get_headers (network e) (length (headers st)) 2000")
    case (Inl err)
    with Suc.prems have "st1 = st" by (simp add: Let_def)
    then have "header_appends (calls st1) =
        header_appends (calls st) @ replicate 0 (header_processing_lock st)" by simp
    with \<open>st1 = st\<close> show ?thesis by blast
  next
    case (Inr answer)
    obtain count hex where answer: "answer = (count, hex)" by (cases answer)
    show ?thesis
    proof (cases "count \<le> 0")
      case True
      with Suc.prems Inr answer have "st1 = st" by (simp add: Let_def)
      then have "header_appends (calls st1) =
          header_appends (calls st) @ replicate 0 (header_processing_lock st)" by simp
      with \<open>st1 = st\<close> show ?thesis by blast
    next
      case False
      obtain r0 st0 where step: "connect_and_publish e st (length (headers st)) hex = (r0, st0)"
        by (cases "connect_and_publish e st (length (headers st)) hex")
      from connect_and_publish_appends [OF step] obtain k where
        lock0: "header_processing_lock st0 = header_processing_lock st"
        and k: "header_appends (calls st0) =
                  header_appends (calls st) @ replicate k (header_processing_lock st)"
        by blast
      show ?thesis
      proof (cases r0)
        case (Inl err)
        with Suc.prems Inr answer False step have "st1 = st0" by (simp add: Let_def)
        with lock0 k show ?thesis by blast
      next
        case r0: (Inr u)
        with Suc.prems Inr answer False step have "update_headers e fuel st0 = (r, st1)"
          by (simp add: Let_def)
        from Suc.IH [OF this] lock0 obtain m where
          "header_processing_lock st1 = header_processing_lock st"
          and "header_appends (calls st1) =
                 header_appends (calls st0) @ replicate m (header_processing_lock st)"
          by auto
        with k have "header_appends (calls st1) =
            header_appends (calls st) @ replicate (k + m) (header_processing_lock st)"
          by (simp add: replicate_add)
        with \<open>header_processing_lock st1 = header_processing_lock st\<close> show ?thesis by blast
      qed
    qed
  qed
qed

lemma process_header_locked_appends:
  assumes "process_header_locked e fuel response st = (r, st1)"
  shows "header_processing_lock st1 = header_processing_lock st
       \<and> (\<exists>k. header_appends (calls st1) =
                header_appends (calls st) @ replicate k (header_processing_lock st))"
proof (cases response)
  case Nil
  with assms have "st1 = st" by (simp add: process_header_locked_def)
  then have "header_appends (calls st1) =
      header_appends (calls st) @ replicate 0 (header_processing_lock st)" by simp
  with \<open>st1 = st\<close> show ?thesis by blast
next
  case (Cons first others)
  obtain height hex where first: "first = (height, hex)" by (cases first)
  consider (direct) "height = int (length (headers st))"
    | (ahead) "height > int (length (headers st))"
    | (stale) "height < int (length (headers st))" by linarith
  then show ?thesis
  proof cases
    case direct
    with assms Cons first obtain r0 where
      "connect_and_publish e st (length (headers st)) hex = (r0, st1)"
      by (auto simp: process_header_locked_def split: prod.splits)
    from connect_and_publish_appends [OF this] show ?thesis .
  next
    case ahead
    with assms Cons first have "update_headers e fuel st = (r, st1)"
      by (simp add: process_header_locked_def)
    from update_headers_appends [OF this] show ?thesis .
  next
    case stale
    with assms Cons first have "st1 = st" by (simp add: process_header_locked_def)
    then have "header_appends (calls st1) =
        header_appends (calls st) @ replicate 0 (header_processing_lock st)" by simp
    with \<open>st1 = st\<close> show ?thesis by blast
  qed
qed

text \<open>
  C3, as amended.  Every header append made by \<^verbatim>\<open>process_header\<close>, the direct one
  and those of the bulk catch-up it falls back to, happens while the header lock is held,
  and when \<^verbatim>\<open>process_header\<close> was entered with the lock free and has ended, the lock
  is free again.  \<^verbatim>\<open>update_headers\<close> itself takes no lock: its appends happen under
  whatever state of the lock its caller left, and it leaves that state as it is.
\<close>

theorem process_header_appends_under_lock:
  "(process_header e fuel response st = (r, st1) \<longrightarrow>
      (\<exists>k. header_appends (calls st1) = header_appends (calls st) @ replicate k True)
      \<and> (\<not> header_processing_lock st \<and> r \<noteq> None \<longrightarrow> \<not> header_processing_lock st1))
   \<and> (update_headers e fuel st = (r, st2) \<longrightarrow>
      (\<exists>k. header_appends (calls st2) =
              header_appends (calls st) @ replicate k (header_processing_lock st))
      \<and> header_processing_lock st2 = header_processing_lock st)"
proof (intro conjI impI)
  assume run: "process_header e fuel response st = (r, st1)"
  show "\<exists>k. header_appends (calls st1) = header_appends (calls st) @ replicate k True"
  proof (cases "header_processing_lock st")
    case True
    with run have "st1 = st" by (simp add: process_header_def)
    then have "header_appends (calls st1) = header_appends (calls st) @ replicate 0 True"
      by simp
    then show ?thesis by blast
  next
    case False
    obtain r0 st0 where body:
      "process_header_locked e fuel response (st\<lparr>header_processing_lock := True\<rparr>) = (r0, st0)"
      by (cases "process_header_locked e fuel response (st\<lparr>header_processing_lock := True\<rparr>)")
    from process_header_locked_appends [OF body] obtain k where
      "header_appends (calls st0) = header_appends (calls st) @ replicate k True"
      by auto
    moreover from run False body have "calls st1 = calls st0"
      by (auto simp: process_header_def split: option.splits)
    ultimately show ?thesis by auto
  qed
next
  assume run: "process_header e fuel response st = (r, st1)"
    and "\<not> header_processing_lock st \<and> r \<noteq> None"
  then show "\<not> header_processing_lock st1"
    by (auto simp: process_header_def split: option.splits prod.splits)
next
  assume "update_headers e fuel st = (r, st2)"
  from update_headers_appends [OF this]
  show "\<exists>k. header_appends (calls st2) =
              header_appends (calls st) @ replicate k (header_processing_lock st)"
    and "header_processing_lock st2 = header_processing_lock st"
    by blast+
qed


lemma sample_headers_fields:
  "net_get_headers (network (sample_env h)) height count =
     (if height < 4 then Inr (1, ''dd'') else Inr (0, []))"
  "deserialize_headers (sample_env h) start data =
     Inr (map (\<lambda>b. \<lparr>merkle_root = hexlify [b]\<rparr>) data)"
  by (simp_all add: sample_env_def sample_network_def)

lemma sample_connect:
  "headers st = sample_headers \<Longrightarrow>
   connect_and_publish (sample_env h) st 3 ''dd'' =
     (Inr (), st\<lparr>calls := calls st @ [HeadersConnect 3 (header_processing_lock st)],
                headers := sample_headers @ [\<lparr>merkle_root = ''dd''\<rparr>],
                on_header := on_header st @ [4]\<rparr>)"
  by (simp add: connect_and_publish_def headers_connect_def sample_headers_fields hex_eval
      Let_def sample_headers_def headers_height_def)

lemma sample_update_headers:
  "headers st = sample_headers \<Longrightarrow>
   update_headers (sample_env h) 2 st =
     (Some (Inr ()), st\<lparr>calls := calls st @ [HeadersConnect 3 (header_processing_lock st)],
                headers := sample_headers @ [\<lparr>merkle_root = ''dd''\<rparr>],
                on_header := on_header st @ [4]\<rparr>)"
proof -
  assume stored: "headers st = sample_headers"
  have len: "length sample_headers = 3" by (simp add: sample_headers_def)
  show ?thesis
    by (simp add: numeral_2_eq_2 sample_headers_fields sample_connect stored len Let_def)
qed

theorem process_header_appends_under_lock_witness:
  "fst (process_header (sample_env []) 2 [(3, ''dd'')] sample_ledger) = Some (Inr ())
   \<and> header_appends (calls (snd (process_header (sample_env []) 2 [(3, ''dd'')] sample_ledger)))
       = [True]
   \<and> \<not> header_processing_lock (snd (process_header (sample_env []) 2 [(3, ''dd'')] sample_ledger))
   \<and> fst (process_header (sample_env []) 2 [(7, ''dd'')] sample_ledger) = Some (Inr ())
   \<and> header_appends (calls (snd (process_header (sample_env []) 2 [(7, ''dd'')] sample_ledger)))
       = [True]
   \<and> \<not> header_processing_lock (snd (process_header (sample_env []) 2 [(7, ''dd'')] sample_ledger))
   \<and> fst (update_headers (sample_env []) 2 sample_ledger) = Some (Inr ())
   \<and> header_processing_lock (snd (update_headers (sample_env []) 2 sample_ledger))
       = header_processing_lock sample_ledger"
proof -
  let ?push = "process_header (sample_env []) 2 [(3, ''dd'')] sample_ledger"
  let ?skip = "process_header (sample_env []) 2 [(7, ''dd'')] sample_ledger"
  let ?bulk = "update_headers (sample_env []) 2 sample_ledger"
  have free: "\<not> header_processing_lock sample_ledger" "calls sample_ledger = []"
    by (simp_all add: sample_ledger_def)
  have push: "?push = (Some (Inr ()),
      sample_ledger\<lparr>calls := [HeadersConnect 3 True],
         headers := sample_headers @ [\<lparr>merkle_root = ''dd''\<rparr>], on_header := [4]\<rparr>)"
    by (simp add: process_header_def process_header_locked_def sample_ledger_fields
        sample_connect free)
      (simp add: sample_ledger_def sample_headers_def)
  have skip: "?skip = (Some (Inr ()),
      sample_ledger\<lparr>calls := [HeadersConnect 3 True],
         headers := sample_headers @ [\<lparr>merkle_root = ''dd''\<rparr>], on_header := [4]\<rparr>)"
    by (simp add: process_header_def process_header_locked_def sample_ledger_fields
        sample_update_headers free)
      (simp add: sample_ledger_def sample_headers_def)
  have bulk: "fst ?bulk = Some (Inr ())"
    by (simp add: sample_update_headers sample_ledger_fields)
  have appends: "header_appends (calls (snd ?push)) = [True]"
    "header_appends (calls (snd ?skip)) = [True]"
    by (simp_all add: push skip header_appends_def)
  from process_header_appends_under_lock
    [of "sample_env []" 2 "[(3, ''dd'')]" sample_ledger "fst ?push" "snd ?push" "snd ?bulk"]
    free push
  have released: "\<not> header_processing_lock (snd ?push)" by simp
  from process_header_appends_under_lock
    [of "sample_env []" 2 "[(7, ''dd'')]" sample_ledger "fst ?skip" "snd ?skip" "snd ?bulk"]
    free skip
  have released': "\<not> header_processing_lock (snd ?skip)" by simp
  from process_header_appends_under_lock
    [of "sample_env []" 2 "[]" sample_ledger "fst ?bulk" "snd ?bulk" "snd ?bulk"]
  have kept: "header_processing_lock (snd ?bulk) = header_processing_lock sample_ledger"
    by simp
  from push skip bulk appends released released' kept show ?thesis by simp
qed

text \<open>
  C3 as stated fails for the bulk entry point: \<^verbatim>\<open>start\<close> calls
  \<^verbatim>\<open>update_headers\<close> with the lock free, and the header is appended with the lock
  not held.
\<close>

theorem update_headers_without_lock_counterexample:
  "\<not> header_processing_lock sample_ledger
   \<and> fst (start_headers (sample_env []) 2 sample_ledger) = Some (Inr ())
   \<and> header_appends (calls (snd (start_headers (sample_env []) 2 sample_ledger))) = [False]"
  by (simp add: start_headers_def sample_update_headers sample_ledger_fields)
    (simp add: sample_ledger_def header_appends_def)

section \<open>Properties of the reservation gate\<close>

text \<open>
  C4.  Let \<^verbatim>\<open>get_spendable_utxos(amount, funding_accounts)\<close> be called with the
  reservation lock free.  (1) If coin selection returns an empty result, the call returns
  the empty result and the ledger is as before: \<^verbatim>\<open>reserve_outputs\<close> is not called.
  (2) An exception raised while the estimators are collected, by coin selection, or by the
  reservation itself is the result of the call, (3) and whenever the call raises, the database
  is as before: no reservation is committed.  (4) On every exit the lock is released.
\<close>

theorem get_spendable_utxos_critical_section:
  assumes free: "\<not> utxo_reservation_lock st"
  shows "(get_effective_amount_estimators e (db st) funding_accounts = Inr txos
          \<and> coin_select e txos amount (get_input_output_fee e (pay_pubkey_hash_size e)) = Inr []
          \<longrightarrow> get_spendable_utxos e amount funding_accounts st = (Inr [], st))
       \<and> (get_effective_amount_estimators e (db st) funding_accounts = Inl err
          \<longrightarrow> get_spendable_utxos e amount funding_accounts st = (Inl err, st))
       \<and> (get_effective_amount_estimators e (db st) funding_accounts = Inr txos
          \<and> coin_select e txos amount (get_input_output_fee e (pay_pubkey_hash_size e)) = Inl err
          \<longrightarrow> get_spendable_utxos e amount funding_accounts st = (Inl err, st))
       \<and> (get_effective_amount_estimators e (db st) funding_accounts = Inr txos
          \<and> coin_select e txos amount (get_input_output_fee e (pay_pubkey_hash_size e))
              = Inr spendables
          \<and> spendables \<noteq> []
          \<and> reserve_outputs_failure e (db st) (map est_txo spendables) = Some err
          \<longrightarrow> get_spendable_utxos e amount funding_accounts st =
                (Inl err, st\<lparr>calls := calls st @ [ReserveOutputs (map est_txo spendables)]\<rparr>))
       \<and> (fst (get_spendable_utxos e amount funding_accounts st) = Inl err
          \<longrightarrow> db (snd (get_spendable_utxos e amount funding_accounts st)) = db st)
       \<and> \<not> utxo_reservation_lock (snd (get_spendable_utxos e amount funding_accounts st))"
proof (intro conjI impI)
  assume "get_effective_amount_estimators e (db st) funding_accounts = Inr txos
          \<and> coin_select e txos amount (get_input_output_fee e (pay_pubkey_hash_size e)) = Inr []"
  with free show "get_spendable_utxos e amount funding_accounts st = (Inr [], st)"
    by (simp add: get_spendable_utxos_def select_and_reserve_def)
next
  assume "get_effective_amount_estimators e (db st) funding_accounts = Inl err"
  with free show "get_spendable_utxos e amount funding_accounts st = (Inl err, st)"
    by (simp add: get_spendable_utxos_def select_and_reserve_def)
next
  assume "get_effective_amount_estimators e (db st) funding_accounts = Inr txos
          \<and> coin_select e txos amount (get_input_output_fee e (pay_pubkey_hash_size e)) = Inl err"
  with free show "get_spendable_utxos e amount funding_accounts st = (Inl err, st)"
    by (simp add: get_spendable_utxos_def select_and_reserve_def)
next
  assume "get_effective_amount_estimators e (db st) funding_accounts = Inr txos
          \<and> coin_select e txos amount (get_input_output_fee e (pay_pubkey_hash_size e))
              = Inr spendables
          \<and> spendables \<noteq> []
          \<and> reserve_outputs_failure e (db st) (map est_txo spendables) = Some err"
  with free show "get_spendable_utxos e amount funding_accounts st =
                (Inl err, st\<lparr>calls := calls st @ [ReserveOutputs (map est_txo spendables)]\<rparr>)"
    by (simp add: get_spendable_utxos_def select_and_reserve_def db_reserve_outputs_def Let_def)
next
  assume "fst (get_spendable_utxos e amount funding_accounts st) = Inl err"
  with free show "db (snd (get_spendable_utxos e amount funding_accounts st)) = db st"
    by (auto simp: get_spendable_utxos_def select_and_reserve_def db_reserve_outputs_def Let_def
        split: sum.splits option.splits if_splits prod.splits)
next
  from free
  show "\<not> utxo_reservation_lock (snd (get_spendable_utxos e amount funding_accounts st))"
    by (simp add: get_spendable_utxos_def split: prod.splits)
qed


lemma sample_estimators:
  "get_effective_amount_estimators (sample_env h) (db sample_ledger) [''account''] =
     Inr [\<lparr>est_txo = (''bb'', 0), est_effective_amount = 1000\<rparr>]"
  by (simp add: sample_env_def sample_ledger_def sample_database_def)

lemma sample_select:
  "coin_select (sample_env h) [\<lparr>est_txo = (''bb'', 0), est_effective_amount = 1000\<rparr>] amount
     (get_input_output_fee (sample_env h) (pay_pubkey_hash_size (sample_env h))) =
     Inr (if amount \<le> 1000 then [\<lparr>est_txo = (''bb'', 0), est_effective_amount = 1000\<rparr>] else [])"
  by (simp add: sample_env_def)

theorem get_spendable_utxos_critical_section_witness:
  "\<not> utxo_reservation_lock sample_ledger
   \<and> get_spendable_utxos (sample_env []) 5000 [''account''] sample_ledger = (Inr [], sample_ledger)
   \<and> get_spendable_utxos no_accounts_env 100 [''account''] sample_ledger
        = (Inl DatabaseError, sample_ledger)
   \<and> get_spendable_utxos no_selection_env 100 [''account''] sample_ledger
        = (Inl SelectionError, sample_ledger)
   \<and> get_spendable_utxos failing_env 100 [''account''] sample_ledger
        = (Inl DatabaseError, sample_ledger\<lparr>calls := [ReserveOutputs [(''bb'', 0)]]\<rparr>)
   \<and> db (snd (get_spendable_utxos failing_env 100 [''account''] sample_ledger)) = db sample_ledger
   \<and> \<not> utxo_reservation_lock (snd (get_spendable_utxos failing_env 100 [''account''] sample_ledger))"
proof -
  let ?txos = "[\<lparr>est_txo = (''bb'', 0), est_effective_amount = 1000\<rparr>]"
  have free: "\<not> utxo_reservation_lock sample_ledger" "calls sample_ledger = []"
    by (simp_all add: sample_ledger_def)
  have failing: "get_effective_amount_estimators failing_env (db sample_ledger) [''account'']
      = Inr ?txos"
    "coin_select failing_env ?txos 100
       (get_input_output_fee failing_env (pay_pubkey_hash_size failing_env)) = Inr ?txos"
    "reserve_outputs_failure failing_env (db sample_ledger) (map est_txo ?txos)
       = Some DatabaseError"
    by (simp_all add: failing_env_def sample_env_def sample_ledger_def sample_database_def)
  have no_accounts:
    "get_effective_amount_estimators no_accounts_env (db sample_ledger) [''account'']
      = Inl DatabaseError"
    by (simp add: no_accounts_env_def)
  have no_selection:
    "get_effective_amount_estimators no_selection_env (db sample_ledger) [''account'']
      = Inr ?txos"
    "coin_select no_selection_env ?txos 100
       (get_input_output_fee no_selection_env (pay_pubkey_hash_size no_selection_env))
      = Inl SelectionError"
    by (simp_all add: no_selection_env_def sample_env_def sample_ledger_def sample_database_def)
  note w = get_spendable_utxos_critical_section [OF free(1)]
  from w [of "sample_env []" "[''account'']" ?txos 5000] sample_estimators sample_select
  have c1: "get_spendable_utxos (sample_env []) 5000 [''account''] sample_ledger
      = (Inr [], sample_ledger)" by simp
  from w [of no_accounts_env "[''account'']" _ 100 DatabaseError] no_accounts
  have c2: "get_spendable_utxos no_accounts_env 100 [''account''] sample_ledger
        = (Inl DatabaseError, sample_ledger)" by simp
  from w [of no_selection_env "[''account'']" ?txos 100 SelectionError] no_selection
  have c3: "get_spendable_utxos no_selection_env 100 [''account''] sample_ledger
        = (Inl SelectionError, sample_ledger)" by simp
  from w [of failing_env "[''account'']" ?txos 100 DatabaseError ?txos] failing free
  have c4: "get_spendable_utxos failing_env 100 [''account''] sample_ledger
        = (Inl DatabaseError, sample_ledger\<lparr>calls := [ReserveOutputs [(''bb'', 0)]]\<rparr>)"
    and c5: "db (snd (get_spendable_utxos failing_env 100 [''account''] sample_ledger))
        = db sample_ledger"
    and c6: "\<not> utxo_reservation_lock
        (snd (get_spendable_utxos failing_env 100 [''account''] sample_ledger))"
    by simp_all
  from free c1 c2 c3 c4 c5 c6 show ?thesis by simp
qed

end
